theory Spec2Isabelle
  imports Complex_Main "HOL-Library.Sublist" "HOL-Library.AList" "HOL-Library.Product_Lexorder"
begin

section \<open>Python string primitives used by the index builder\<close>

text \<open>
  A Python \<open>str\<close> is modelled as a \<open>string\<close>, a list of characters; \<open>len\<close> is \<open>length\<close>.
  The development therefore speaks about words whose characters are single code units,
  which covers the identifiers, stems and rule phrases of \<open>index_creator.py\<close>.
\<close>

text \<open>
  \<open>s.replace(old, new)\<close>: scan from the left, replace every non-overlapping occurrence
  of \<open>old\<close>, continue behind the replaced text. For an empty \<open>old\<close> Python inserts
  \<open>new\<close> before every character and at the end.
\<close>

fun replace_from :: "string \<Rightarrow> string \<Rightarrow> string \<Rightarrow> string" where
  "replace_from old new [] = []"
| "replace_from old new (c # cs) =
     (if old \<noteq> [] \<and> prefix old (c # cs)
      then new @ replace_from old new (drop (length old) (c # cs))
      else c # replace_from old new cs)"

definition str_replace :: "string \<Rightarrow> string \<Rightarrow> string \<Rightarrow> string" where
  "str_replace old new s =
     (if old = [] then new @ concat (map (\<lambda>c. c # new) s) else replace_from old new s)"

text \<open>
  \<open>s.strip()\<close> removes leading and trailing whitespace; the characters for which
  \<open>str.isspace\<close> holds are listed by code point.
\<close>

definition is_space :: "char \<Rightarrow> bool" where
  "is_space c = ((of_char c :: nat) \<in> {9, 10, 11, 12, 13, 28, 29, 30, 31, 32, 133, 160})"

definition strip :: "string \<Rightarrow> string" where
  "strip s = rev (dropWhile is_space (rev (dropWhile is_space s)))"

text \<open>
  \<open>s.split('_')\<close>: the pieces between underscores, empty pieces included; the empty
  string splits into one empty piece.
\<close>

fun split_underscore :: "string \<Rightarrow> string list" where
  "split_underscore [] = [[]]"
| "split_underscore (c # cs) =
     (if c = CHR ''_'' then [] # split_underscore cs
      else (case split_underscore cs of
              [] \<Rightarrow> [[c]]
            | p # ps \<Rightarrow> (c # p) # ps))"

section \<open>The synonym table (\<open>replace_synonyms\<close>)\<close>

text \<open>
  The chain of \<open>.replace(old, new)\<close> calls of \<open>replace_synonyms\<close>, in source order.
\<close>

definition synonym_rules :: "(string \<times> string) list" where
  "synonym_rules = [
  ('' read '', ''load''), ('' write'', ''store''), ('' save'', ''store''),
  ('' dump'', ''store''), ('' quit'', ''exit''), ('' termin '', ''exit''),
  ('' leav'', ''exit''), ('' break '', ''exit''), ('' pop '', ''delet''),
  (''remov'', ''delet''), ('' trim '', ''delet''), ('' strip '', ''delet''),
  ('' halt'', ''stop''), (''restart'', ''continu''), (''push '', ''add''),
  (''object'', ''instanc''), ('' null '', ''none''), (''method'', ''function''),
  (''concat '', ''combin''), ('' for '', ''loop''), ('' foreach '', ''loop''),
  ('' while '', ''loop''), ('' iterat '', ''loop''), ('' integ '', ''int''),
  (''tinyint '', ''int''), ('' smallint '', ''int''), ('' bigint '', ''int''),
  ('' shortint '', ''int''), (''longint '', ''int''), ('' byte '', ''int''),
  ('' short '', ''int''), ('' doubl '', ''float''), ('' long '', ''float''),
  ('' decim '', ''float''), (''real '', ''float''), ('' array '', ''[]''), ('' arr '', ''[]''),
  ('' fastest '', ''fast''), ('' speed '', ''fast''), ('' defin '', ''creat''),
  ('' declar '', ''creat''), ('' init '', ''creat''), ('' construct '', ''creat''),
  ('' new '', ''creat''), ('' make '', ''creat''), ('' initi '', ''creat''),
  ('' initid '', ''creat''), ('' boolean '', ''bool''), (''begin'', ''start''),
  (''run '', ''execut''), (''runnabl'', ''execut''), ('' enumer '', ''enum''),
  ('' enumerd '', ''enum''), ('' websit '', ''web''), ('' vertex '', ''node''),
  ('' arc '', ''edg''), ('' math '', ''calc''), ('' determin '', ''calc''),
  ('' should '', ''check''), ('' test '', ''check''), ('' is '', ''check''),
  ('' ensur '', ''check''), ('' equal '', ''compar''), ('' implement '', ''extend''),
  ('' whitespac '', ''space'')]"

definition pad :: "string \<Rightarrow> string" where
  "pad word = '' '' @ word @ '' ''"

definition replace_synonyms :: "string \<Rightarrow> string" where
  "replace_synonyms word =
     strip (fold (\<lambda>(old, new) s. str_replace old new s) synonym_rules (pad word))"

section \<open>The index and its accumulation (\<open>add_to_index\<close>)\<close>

text \<open>
  The index is a \<open>dict\<close> from term to \<open>Counter\<close>, a \<open>Counter\<close> maps a document id to
  its count. Both keep insertion order, and the final pass stores an order, so both are
  association lists: a key is looked up with \<open>map_of\<close>, and \<open>AList.update\<close> overwrites
  the value of a present key in place and appends an absent key, as item assignment does.
\<close>

type_synonym postings = "(nat \<times> nat) list"
type_synonym index = "(string \<times> postings) list"
type_synonym wpostings = "(nat \<times> real) list"
type_synonym windex = "(string \<times> wpostings) list"

text \<open>Reading a \<open>Counter\<close> at a missing key gives 0.\<close>

definition counter_get :: "postings \<Rightarrow> nat \<Rightarrow> nat" where
  "counter_get cnt i = (case map_of cnt i of None \<Rightarrow> 0 | Some c \<Rightarrow> c)"

text \<open>
  The body shared by both branches of \<open>add_to_index\<close>:
  \<^verbatim>\<open>if word in index: index[word][i] += 1
else: cnt = Counter(); cnt[i] = 1; index[word] = cnt\<close>
\<close>

definition increment :: "index \<Rightarrow> string \<Rightarrow> nat \<Rightarrow> index" where
  "increment index word i =
     (case map_of index word of
        Some cnt \<Rightarrow> AList.update word (AList.update i (counter_get cnt i + 1) cnt) index
      | None \<Rightarrow> AList.update word [(i, 1)] index)"

text \<open>
  One sub-piece of \<open>raw_word.split('_')\<close> in the stopword branch. The Porter stemmer is
  the external \<open>nltk\<close> one and is a parameter \<open>stem\<close> throughout.
\<close>

definition add_word :: "(string \<Rightarrow> string) \<Rightarrow> string set \<Rightarrow> nat \<Rightarrow> index \<Rightarrow> string \<Rightarrow> index" where
  "add_word stem stopwords i index word =
     (let len = length word in
      if len < 2 \<or> len > 18 \<or> word \<in> stopwords then index
      else increment index (replace_synonyms (stem word)) i)"

definition stopword_pass :: "(string \<Rightarrow> string) \<Rightarrow> string set \<Rightarrow> index \<Rightarrow> string list list \<Rightarrow> index" where
  "stopword_pass stem stopwords index lines =
     fold (\<lambda>(i, line) index.
        fold (\<lambda>raw_word index.
          fold (\<lambda>word index. add_word stem stopwords i index word)
            (split_underscore raw_word) index)
          line index)
       (enumerate 0 lines) index"

definition bracket_pass :: "index \<Rightarrow> string list list \<Rightarrow> index" where
  "bracket_pass index lines =
     fold (\<lambda>(i, line) index.
        fold (\<lambda>word index. if word \<noteq> ''[]'' then index else increment index word i)
          line index)
       (enumerate 0 lines) index"

text \<open>
  \<open>if stopwords:\<close> tests truthiness: \<open>None\<close> and the empty set both take the
  \<open>else\<close> branch.
\<close>

definition truthy :: "string set option \<Rightarrow> bool" where
  "truthy stopwords = (case stopwords of None \<Rightarrow> False | Some S \<Rightarrow> S \<noteq> {})"

definition add_to_index ::
  "(string \<Rightarrow> string) \<Rightarrow> index \<Rightarrow> string list list \<Rightarrow> string set option \<Rightarrow> index" where
  "add_to_index stem index lines stopwords =
     (case stopwords of
        None \<Rightarrow> bracket_pass index lines
      | Some S \<Rightarrow> if S \<noteq> {} then stopword_pass stem S index lines
                  else bracket_pass index lines)"

text \<open>
  The three accumulation calls of \<open>create_index\<close>, with \<open>stopwords.add('new')\<close>
  between the first and the second. The stopword set is a value here; that the caller's
  set object also holds \<open>new\<close> afterwards is not part of the model.
\<close>

definition accumulate ::
  "(string \<Rightarrow> string) \<Rightarrow> string set \<Rightarrow> string list list \<Rightarrow> string list list
     \<Rightarrow> string list list \<Rightarrow> index" where
  "accumulate stem stopwords methnames tokens apiseqs =
     (let index = [];
          index = add_to_index stem index methnames (Some stopwords);
          stopwords = insert ''new'' stopwords;
          index = add_to_index stem index tokens (Some stopwords);
          index = add_to_index stem index apiseqs None
      in index)"

section \<open>Weighting and ordering\<close>

datatype error =
    AssertionError string
  | ValueError string
  | TypeError string
  | ZeroDivisionError string

text \<open>
  Python floats are idealised as real numbers. \<open>a / b\<close> on integers raises
  \<open>ZeroDivisionError\<close> for \<open>b = 0\<close>; \<open>math.log10\<close> raises \<open>ValueError\<close> outside
  its domain.
\<close>

definition true_div :: "nat \<Rightarrow> nat \<Rightarrow> error + real" where
  "true_div a b =
     (if b = 0 then Inl (ZeroDivisionError ''division by zero'') else Inr (real a / real b))"

definition log10 :: "real \<Rightarrow> error + real" where
  "log10 x = (if x \<le> 0 then Inl (ValueError ''math domain error'') else Inr (log 10 x))"

text \<open>
  One iteration of \<open>for line_counter in index.values()\<close>. The inner loop assigns every
  key of the counter once, which is a map over its entries; \<open>1 + tf\<close> is at least 1,
  so the inner \<open>math.log10\<close> is inside its domain.
\<close>

definition weight_term :: "nat \<Rightarrow> postings \<Rightarrow> error + wpostings" where
  "weight_term number_of_code_fragments line_counter =
     (let lines = map fst line_counter in
      case true_div number_of_code_fragments (length lines) of
        Inl e \<Rightarrow> Inl e
      | Inr q \<Rightarrow>
         (case log10 q of
            Inl e \<Rightarrow> Inl e
          | Inr idf \<Rightarrow>
              Inr (map (\<lambda>(line_nr, tf). (line_nr, idf * log 10 (1 + real tf))) line_counter)))"

fun weighting_pass :: "nat \<Rightarrow> index \<Rightarrow> error + windex" where
  "weighting_pass n [] = Inr []"
| "weighting_pass n ((word, line_counter) # rest) =
     (case weight_term n line_counter of
        Inl e \<Rightarrow> Inl e
      | Inr ps \<Rightarrow>
         (case weighting_pass n rest of
            Inl e \<Rightarrow> Inl e
          | Inr ws \<Rightarrow> Inr ((word, ps) # ws)))"

text \<open>
  \<open>sorted(items, key=lambda x: (-x[1], x[0]))\<close>: a stable sort on the key tuple, tuples
  compared lexicographically.
\<close>

definition sort_postings :: "wpostings \<Rightarrow> wpostings" where
  "sort_postings ps = sort_key (\<lambda>x. (- snd x, fst x)) ps"

definition sort_pass :: "windex \<Rightarrow> windex" where
  "sort_pass index = map (\<lambda>(word, ps). (word, sort_postings ps)) index"

text \<open>
  The in-memory index of \<open>create_index\<close> from \<open>index = dict()\<close> to the end of the
  sorting loop: accumulation, weighting with \<open>number_of_code_fragments = len(methnames)\<close>,
  re-ordering of every term's postings.
\<close>

definition finished_index ::
  "(string \<Rightarrow> string) \<Rightarrow> string set \<Rightarrow> string list list \<Rightarrow> string list list
     \<Rightarrow> string list list \<Rightarrow> error + windex" where
  "finished_index stem stopwords methnames tokens apiseqs =
     (let index = accumulate stem stopwords methnames tokens apiseqs;
          number_of_code_fragments = length methnames
      in case weighting_pass number_of_code_fragments index of
           Inl err \<Rightarrow> Inl err
         | Inr weighted \<Rightarrow> Inr (sort_pass weighted))"

section \<open>Loading, building and storing\<close>

text \<open>The fields of \<open>IndexCreator\<close> that the modelled methods read.\<close>

record creator =
  dataset_path :: string
  index_type :: string
  use_methname :: string
  use_tokens :: string
  use_apiseq :: string
  methname_vocab :: "(string \<times> int) list"
  token_vocab :: "(string \<times> int) list"
  apiseq_vocab :: "(string \<times> int) list"

text \<open>
  What the methods ask of the outside: \<open>os.path.exists\<close>, \<open>data_loader.load_hdf5\<close>
  and \<open>data_loader.load_pickle\<close>. What they write is returned as a list of effects.
  Progress output (\<open>print\<close>, \<open>tqdm\<close>) is left out.
\<close>

record env =
  path_exists :: "string \<Rightarrow> bool"
  load_hdf5 :: "string \<Rightarrow> int list list"
  load_pickle :: "string \<Rightarrow> windex"

datatype effect =
    SavePickle string windex
  | SaveIndexDB string windex string

text \<open>The value \<open>load_data\<close> returns: a 2-tuple, a 3-tuple, or \<open>None\<close> by falling off its end.\<close>

datatype loaded =
    WordIndices "int list list" "int list list"
  | Terms "string list list" "string list list" "string list list"
  | NoneValue

text \<open>\<open>dict((v, k) for k, v in vocab.items())\<close>: of two words with one id the later wins.\<close>

definition invert_vocab :: "(string \<times> int) list \<Rightarrow> int \<Rightarrow> string option" where
  "invert_vocab vocab = map_of (rev (map (\<lambda>(k, v). (v, k)) vocab))"

definition translate :: "(string \<times> int) list \<Rightarrow> int list list \<Rightarrow> string list list" where
  "translate vocab docs =
     map (map (\<lambda>i. case invert_vocab vocab i of None \<Rightarrow> ''UNK'' | Some w \<Rightarrow> w)) docs"

definition load_data :: "creator \<Rightarrow> env \<Rightarrow> error + loaded" where
  "load_data self e =
     (if \<not> path_exists e (dataset_path self @ use_methname self)
        then Inl (AssertionError ''Method names of real data not found.'')
      else if \<not> path_exists e (dataset_path self @ use_tokens self)
        then Inl (AssertionError ''Tokens of real data not found.'')
      else if \<not> path_exists e (dataset_path self @ use_apiseq self)
        then Inl (AssertionError ''API sequences of real data not found.'')
      else
        let methname_indices = load_hdf5 e (dataset_path self @ use_methname self);
            token_indices = load_hdf5 e (dataset_path self @ use_tokens self);
            apiseq_indices = load_hdf5 e (dataset_path self @ use_apiseq self)
        in if index_type self = ''word_indices''
             then Inr (WordIndices methname_indices token_indices)
           else if index_type self = ''inverted_index''
             then Inr (Terms (translate (methname_vocab self) methname_indices)
                             (translate (token_vocab self) token_indices)
                             (translate (apiseq_vocab self) apiseq_indices))
           else Inr NoneValue)"

text \<open>\<open>a, b, c = self.load_data()\<close>: only a 3-tuple unpacks into three names.\<close>

definition unpack3 ::
  "loaded \<Rightarrow> error + (string list list \<times> string list list \<times> string list list)" where
  "unpack3 r =
     (case r of
        Terms a b c \<Rightarrow> Inr (a, b, c)
      | WordIndices a b \<Rightarrow> Inl (ValueError ''not enough values to unpack (expected 3, got 2)'')
      | NoneValue \<Rightarrow> Inl (TypeError ''cannot unpack non-iterable NoneType object''))"

definition save_index :: "creator \<Rightarrow> windex \<Rightarrow> effect list" where
  "save_index self index =
     (if index_type self = ''word_indices'' then []
      else [SavePickle (dataset_path self @ index_type self @ ''.pkl'') index,
            SaveIndexDB (index_type self) index (dataset_path self)])"

datatype index_value =
    Documents "string list list" "string list list"
  | Stored windex

definition load_index :: "creator \<Rightarrow> env \<Rightarrow> error + index_value" where
  "load_index self e =
     (if index_type self = ''word_indices'' then
        (case load_data self e of
           Inl err \<Rightarrow> Inl err
         | Inr r \<Rightarrow>
            (case unpack3 r of
               Inl err \<Rightarrow> Inl err
             | Inr (methnames, tokens, irrelevant) \<Rightarrow> Inr (Documents methnames tokens)))
      else if \<not> path_exists e (dataset_path self @ index_type self @ ''.pkl'')
        then Inl (AssertionError
               (''Index file '' @ index_type self @ ''.pkl'' @ '' not found at '' @ dataset_path self))
      else Inr (Stored (load_pickle e (dataset_path self @ index_type self @ ''.pkl''))))"

definition create_index ::
  "creator \<Rightarrow> env \<Rightarrow> (string \<Rightarrow> string) \<Rightarrow> string set \<Rightarrow> error + effect list" where
  "create_index self e stem stopwords =
     (if index_type self = ''word_indices'' then Inr []
      else case load_data self e of
        Inl err \<Rightarrow> Inl err
      | Inr r \<Rightarrow>
         (case unpack3 r of
            Inl err \<Rightarrow> Inl err
          | Inr (methnames, tokens, apiseqs) \<Rightarrow>
              if index_type self = ''inverted_index'' then
                (case finished_index stem stopwords methnames tokens apiseqs of
                   Inl err \<Rightarrow> Inl err
                 | Inr index \<Rightarrow> Inr (save_index self index))
              else Inr (save_index self [])))"

section \<open>Notions of the specification\<close>

text \<open>The field of document \<open>i\<close>; a document id beyond the field has no tokens.\<close>

definition doc :: "'a list list \<Rightarrow> nat \<Rightarrow> 'a list" where
  "doc lines i = (if i < length lines then lines ! i else [])"

text \<open>
  The surviving normalized terms of one document field as the specification's Term
  Normalizer gives them, in order and with repetitions. For a field with a stopword set
  \<open>S\<close>, empty or not: every underscore-delimited sub-piece of 2 to 18 characters that is
  not in \<open>S\<close>, stemmed and rewritten. For a field with stopwords disabled (\<open>None\<close>,
  the API field): only the literal \<open>[]\<close> tokens.
\<close>

definition surviving_terms ::
  "(string \<Rightarrow> string) \<Rightarrow> string set option \<Rightarrow> string list \<Rightarrow> string list" where
  "surviving_terms stem stopwords line =
     (case stopwords of
        None \<Rightarrow> filter (\<lambda>word. word = ''[]'') line
      | Some S \<Rightarrow>
          map (\<lambda>word. replace_synonyms (stem word))
            (filter (\<lambda>word. 2 \<le> length word \<and> length word \<le> 18 \<and> word \<notin> S)
               (concat (map split_underscore line))))"

text \<open>The raw count stored for a term and a document, 0 when there is no entry.\<close>

definition tf :: "index \<Rightarrow> string \<Rightarrow> nat \<Rightarrow> nat" where
  "tf index t i = (case map_of index t of None \<Rightarrow> 0 | Some cnt \<Rightarrow> counter_get cnt i)"

definition has_posting :: "('t \<times> (nat \<times> 'v) list) list \<Rightarrow> 't \<Rightarrow> nat \<Rightarrow> bool" where
  "has_posting index t i =
     (case map_of index t of None \<Rightarrow> False | Some cnt \<Rightarrow> map_of cnt i \<noteq> None)"

definition idf :: "nat \<Rightarrow> nat \<Rightarrow> real" where
  "idf n df = log 10 (real n / real df)"

text \<open>
  The shape every accumulated index has: distinct terms, and for every term a non-empty
  counter with distinct document ids and counts of at least 1.
\<close>

definition well_formed :: "index \<Rightarrow> bool" where
  "well_formed index =
     (distinct (map fst index) \<and>
      (\<forall>(t, cnt) \<in> set index. cnt \<noteq> [] \<and> distinct (map fst cnt) \<and> (\<forall>(d, c) \<in> set cnt. 1 \<le> c)))"

text \<open>Every document id of every counter is below \<open>n\<close>.\<close>

definition ids_below :: "nat \<Rightarrow> index \<Rightarrow> bool" where
  "ids_below n index = (\<forall>(t, cnt) \<in> set index. \<forall>(d, c) \<in> set cnt. d < n)"

text \<open>Counting a list of terms for document \<open>i\<close>, one increment each.\<close>

definition add_terms :: "nat \<Rightarrow> string list \<Rightarrow> index \<Rightarrow> index" where
  "add_terms i ts index = fold (\<lambda>t index. increment index t i) ts index"

text \<open>
  The terms one call of \<open>add_to_index\<close> counts for a line. The branch is the one
  \<open>if stopwords:\<close> takes, so an empty set counts like \<open>None\<close>.
\<close>

definition counted_terms ::
  "(string \<Rightarrow> string) \<Rightarrow> string set option \<Rightarrow> string list \<Rightarrow> string list" where
  "counted_terms stem stopwords line =
     (if truthy stopwords
      then map (\<lambda>word. replace_synonyms (stem word))
             (filter (\<lambda>word. 2 \<le> length word \<and> length word \<le> 18
                       \<and> word \<notin> (case stopwords of None \<Rightarrow> {} | Some S \<Rightarrow> S))
                (concat (map split_underscore line)))
      else filter (\<lambda>word. word = ''[]'') line)"


text \<open>The weighted postings of a counter: every count \<open>tf\<close> becomes \<open>idf * log10 (1 + tf)\<close>.\<close>

definition weigh :: "nat \<Rightarrow> postings \<Rightarrow> wpostings" where
  "weigh n cnt = map (\<lambda>(d, tf). (d, idf n (length cnt) * log 10 (1 + real tf))) cnt"

section \<open>Facts about the string primitives\<close>














section \<open>Facts about the accumulation\<close>

lemma map_of_increment:
  "map_of (increment index w i) =
     (map_of index)(w \<mapsto> (case map_of index w of
                              None \<Rightarrow> [(i, 1)]
                            | Some cnt \<Rightarrow> AList.update i (counter_get cnt i + 1) cnt))"
  by (simp add: increment_def update_conv' split: option.splits)

lemma counter_get_update:
  "counter_get (AList.update i v cnt) j = (if j = i then v else counter_get cnt j)"
  by (simp add: counter_get_def update_conv')

lemma tf_increment:
  "tf (increment index w i) t j = tf index t j + (if t = w \<and> j = i then 1 else 0)"
  by (auto simp: tf_def map_of_increment counter_get_update split: option.splits)
     (simp_all add: counter_get_def)

lemma tf_add_terms:
  "tf (add_terms i ts index) t j = tf index t j + (if j = i then count_list ts t else 0)"
  unfolding add_terms_def
  by (induction ts arbitrary: index) (auto simp: tf_increment)

lemma set_update_subset:
  "(k, v) \<in> set (AList.update a b al) \<Longrightarrow> (k, v) \<in> set al \<or> (k = a \<and> v = b)"
  by (induction al) (auto split: if_splits)

lemma well_formed_increment:
  assumes "well_formed index"
  shows "well_formed (increment index w i)"
proof (cases "map_of index w")
  case None
  with assms show ?thesis
    by (auto simp: well_formed_def increment_def distinct_update dest!: set_update_subset)
next
  case (Some cnt)
  then have mem: "(w, cnt) \<in> set index" by (rule map_of_SomeD)
  with assms have c: "distinct (map fst cnt)" "\<forall>(d, c) \<in> set cnt. 1 \<le> c"
    by (auto simp: well_formed_def)
  have "AList.update i (counter_get cnt i + 1) cnt \<noteq> []"
    by (cases cnt) auto
  moreover have "distinct (map fst (AList.update i (counter_get cnt i + 1) cnt))"
    using c by (simp add: distinct_update)
  moreover have "\<forall>(d, c) \<in> set (AList.update i (counter_get cnt i + 1) cnt). 1 \<le> c"
    using c by (auto dest!: set_update_subset)
  ultimately show ?thesis using assms Some
    by (auto simp: well_formed_def increment_def distinct_update dest!: set_update_subset)
qed

lemma well_formed_add_terms:
  "well_formed index \<Longrightarrow> well_formed (add_terms i ts index)"
  unfolding add_terms_def
  by (induction ts arbitrary: index) (auto simp: well_formed_increment)

lemma ids_below_increment:
  assumes "ids_below n index" "i < n"
  shows "ids_below n (increment index w i)"
proof (cases "map_of index w")
  case None
  with assms show ?thesis
    by (auto simp: ids_below_def increment_def dest!: set_update_subset)
next
  case (Some cnt)
  then have mem: "(w, cnt) \<in> set index" by (rule map_of_SomeD)
  with assms have "\<forall>(d, c) \<in> set cnt. d < n" by (auto simp: ids_below_def)
  then have "\<forall>(d, c) \<in> set (AList.update i (counter_get cnt i + 1) cnt). d < n"
    using assms by (auto dest!: set_update_subset)
  then show ?thesis using assms Some mem
    by (auto simp: ids_below_def increment_def dest!: set_update_subset)
qed

lemma ids_below_add_terms:
  "ids_below n index \<Longrightarrow> i < n \<Longrightarrow> ids_below n (add_terms i ts index)"
  unfolding add_terms_def
  by (induction ts arbitrary: index) (auto simp: ids_below_increment)

lemma fold_add_word:
  "fold (\<lambda>word index. add_word stem S i index word) ws index =
     add_terms i (map (\<lambda>word. replace_synonyms (stem word))
                    (filter (\<lambda>word. 2 \<le> length word \<and> length word \<le> 18 \<and> word \<notin> S) ws)) index"
  unfolding add_terms_def
  by (induction ws arbitrary: index) (auto simp: add_word_def Let_def)

lemma add_terms_append:
  "add_terms i (xs @ ys) index = add_terms i ys (add_terms i xs index)"
  by (simp add: add_terms_def)

lemma stopword_line:
  assumes "S \<noteq> {}"
  shows "fold (\<lambda>raw_word index.
            fold (\<lambda>word index. add_word stem S i index word) (split_underscore raw_word) index)
          line index
         = add_terms i (counted_terms stem (Some S) line) index"
proof (induction line arbitrary: index)
  case Nil
  show ?case using assms by (simp add: counted_terms_def truthy_def add_terms_def)
next
  case (Cons raw line)
  show ?case using assms Cons [of "fold (\<lambda>word index. add_word stem S i index word) (split_underscore raw) index"]
    by (simp add: fold_add_word counted_terms_def truthy_def add_terms_append)
qed

lemma bracket_line:
  "fold (\<lambda>word index. if word \<noteq> ''[]'' then index else increment index word i) line index
     = add_terms i (filter (\<lambda>word. word = ''[]'') line) index"
  unfolding add_terms_def
  by (induction line arbitrary: index) auto

lemma add_to_index_terms:
  "add_to_index stem index lines stopwords =
     fold (\<lambda>(i, line). add_terms i (counted_terms stem stopwords line)) (enumerate 0 lines) index"
proof (cases "truthy stopwords")
  case True
  then obtain S where S: "stopwords = Some S" "S \<noteq> {}"
    by (auto simp: truthy_def split: option.splits)
  then show ?thesis
    by (simp add: add_to_index_def stopword_pass_def stopword_line)
next
  case False
  then have "counted_terms stem stopwords = filter (\<lambda>word. word = ''[]'')"
    by (auto simp: counted_terms_def)
  moreover from False have "add_to_index stem index lines stopwords = bracket_pass index lines"
    by (auto simp: truthy_def add_to_index_def split: option.splits)
  ultimately show ?thesis
    by (simp add: bracket_pass_def bracket_line)
qed

lemma tf_fold_enumerate:
  "tf (fold (\<lambda>(i, line). add_terms i (f line)) (enumerate n lines) index) t j =
     tf index t j + (if n \<le> j \<and> j < n + length lines then count_list (f (lines ! (j - n))) t else 0)"
proof (induction lines arbitrary: n index)
  case Nil
  show ?case by simp
next
  case (Cons l lines)
  show ?case
    by (auto simp: Cons tf_add_terms Suc_diff_le nth_Cons')
qed

lemma tf_add_to_index:
  "tf (add_to_index stem index lines stopwords) t j =
     tf index t j + count_list (counted_terms stem stopwords (doc lines j)) t"
proof -
  have "counted_terms stem stopwords [] = []"
    by (simp add: counted_terms_def)
  then show ?thesis
    by (simp add: add_to_index_terms tf_fold_enumerate doc_def)
qed

lemma well_formed_fold_enumerate:
  "well_formed index \<Longrightarrow>
     well_formed (fold (\<lambda>(i, line). add_terms i (f line)) (enumerate n lines) index)"
  by (induction lines arbitrary: n index) (auto simp: well_formed_add_terms)

lemma well_formed_add_to_index:
  "well_formed index \<Longrightarrow> well_formed (add_to_index stem index lines stopwords)"
  by (simp add: add_to_index_terms well_formed_fold_enumerate)

lemma ids_below_fold_enumerate:
  "ids_below m index \<Longrightarrow> n + length lines \<le> m \<Longrightarrow>
     ids_below m (fold (\<lambda>(i, line). add_terms i (f line)) (enumerate n lines) index)"
  by (induction lines arbitrary: n index) (auto simp: ids_below_add_terms)

lemma ids_below_add_to_index:
  "ids_below m index \<Longrightarrow> length lines \<le> m \<Longrightarrow>
     ids_below m (add_to_index stem index lines stopwords)"
  by (simp add: add_to_index_terms ids_below_fold_enumerate)

lemma well_formed_empty: "well_formed []"
  by (simp add: well_formed_def)

lemma ids_below_empty: "ids_below m []"
  by (simp add: ids_below_def)

lemma tf_empty: "tf [] t i = 0"
  by (simp add: tf_def)

lemma well_formed_accumulate: "well_formed (accumulate stem S methnames tokens apiseqs)"
  by (simp add: accumulate_def well_formed_add_to_index well_formed_empty)

lemma ids_below_accumulate:
  "length methnames \<le> m \<Longrightarrow> length tokens \<le> m \<Longrightarrow> length apiseqs \<le> m \<Longrightarrow>
     ids_below m (accumulate stem S methnames tokens apiseqs)"
  by (simp add: accumulate_def ids_below_add_to_index ids_below_empty)

lemma tf_accumulate:
  "tf (accumulate stem S methnames tokens apiseqs) t i =
     count_list (counted_terms stem (Some S) (doc methnames i)) t
   + count_list (counted_terms stem (Some (insert ''new'' S)) (doc tokens i)) t
   + count_list (counted_terms stem None (doc apiseqs i)) t"
  by (simp add: accumulate_def tf_add_to_index tf_empty)

lemma has_posting_tf:
  assumes "well_formed index"
  shows "has_posting index t i \<longleftrightarrow> 1 \<le> tf index t i"
proof (cases "map_of index t")
  case None
  then show ?thesis by (simp add: has_posting_def tf_def)
next
  case (Some cnt)
  then have "(t, cnt) \<in> set index" by (rule map_of_SomeD)
  with assms have pos: "\<forall>(d, c) \<in> set cnt. 1 \<le> c" by (auto simp: well_formed_def)
  show ?thesis
  proof (cases "map_of cnt i")
    case None
    with Some show ?thesis by (simp add: has_posting_def tf_def counter_get_def)
  next
    case (Some c)
    then have "(i, c) \<in> set cnt" by (rule map_of_SomeD)
    with pos have "1 \<le> c" by auto
    with Some \<open>map_of index t = Some cnt\<close> show ?thesis
      by (simp add: has_posting_def tf_def counter_get_def)
  qed
qed

section \<open>The synonym table rewrites more than whole words (C5)\<close>




section \<open>The gates of the stopword branch (C4)\<close>

lemma count_list_filter_eq:
  "count_list (filter (\<lambda>w. w = x) line) t = (if t = x then count_list line x else 0)"
  by (induction line) auto

lemma surviving_terms_disabled:
  "surviving_terms stem None line = filter (\<lambda>word. word = ''[]'') line"
  by (simp add: surviving_terms_def)

lemma surviving_terms_enabled:
  "surviving_terms stem (Some S) line =
     map (\<lambda>word. replace_synonyms (stem word))
       (filter (\<lambda>word. 2 \<le> length word \<and> length word \<le> 18 \<and> word \<notin> S)
          (concat (map split_underscore line)))"
  by (simp add: surviving_terms_def)

lemma counted_terms_disabled: "counted_terms stem None line = surviving_terms stem None line"
  by (simp add: counted_terms_def truthy_def surviving_terms_def)

lemma counted_terms_enabled:
  "S \<noteq> {} \<Longrightarrow> counted_terms stem (Some S) line = surviving_terms stem (Some S) line"
  by (simp add: counted_terms_def truthy_def surviving_terms_def)

lemma counted_terms_empty:
  "counted_terms stem (Some {}) line = filter (\<lambda>word. word = ''[]'') line"
  by (simp add: counted_terms_def truthy_def)

text \<open>
  C4: in a field pass with stopwords enabled (a non-empty stopword set), a raw
  underscore-delimited sub-piece of length below 2, of length above 18, or present in
  the stopword set leaves the index unchanged. The membership test reads the raw
  sub-piece: a sub-piece that passes both gates is counted under the synonym rewrite of
  its stem, whatever that stem is. The whole pass counts, for every document, exactly
  the stemmed and rewritten sub-pieces that pass the gates.
\<close>

theorem stopword_pass_gates:
  assumes "S \<noteq> {}"
  shows "(length word < 2 \<or> 18 < length word \<or> word \<in> S
            \<longrightarrow> add_word stem S i index word = index)
       \<and> (2 \<le> length word \<and> length word \<le> 18 \<and> word \<notin> S
            \<longrightarrow> add_word stem S i index word = increment index (replace_synonyms (stem word)) i)
       \<and> add_to_index stem index lines (Some S) =
           fold (\<lambda>(i, line). add_terms i
                   (map (\<lambda>word. replace_synonyms (stem word))
                      (filter (\<lambda>word. 2 \<le> length word \<and> length word \<le> 18 \<and> word \<notin> S)
                         (concat (map split_underscore line)))))
             (enumerate 0 lines) index"
proof -
  have "add_to_index stem index lines (Some S) =
          fold (\<lambda>(i, line). add_terms i (counted_terms stem (Some S) line))
            (enumerate 0 lines) index"
    by (rule add_to_index_terms)
  with assms show ?thesis
    by (auto simp: add_word_def Let_def counted_terms_enabled surviving_terms_enabled)
qed

theorem stopword_pass_gates_witness:
  "{''the''} \<noteq> ({} :: string set)
   \<and> add_word (\<lambda>w. w) {''the''} 0 [] ''a'' = []
   \<and> add_word (\<lambda>w. w) {''the''} 0 [] ''internationalization'' = []
   \<and> add_word (\<lambda>w. w) {''the''} 0 [] ''the'' = []
   \<and> add_word (\<lambda>w. ''the'') {''the''} 0 [] ''read'' = increment [] (replace_synonyms ''the'') 0"
proof -
  have ne: "{''the''} \<noteq> ({} :: string set)" by simp
  have a: "length ''a'' < 2 \<or> 18 < length ''a'' \<or> ''a'' \<in> {''the''}" by simp
  have b: "length ''internationalization'' < 2 \<or> 18 < length ''internationalization''
             \<or> ''internationalization'' \<in> {''the''}" by simp
  have c: "length ''the'' < 2 \<or> 18 < length ''the'' \<or> ''the'' \<in> {''the''}" by simp
  have d: "2 \<le> length ''read'' \<and> length ''read'' \<le> 18 \<and> ''read'' \<notin> {''the''}" by simp
  from stopword_pass_gates [OF ne, of "''a''" "\<lambda>w. w" 0 "[]" "[]"] a
  have 1: "add_word (\<lambda>w. w) {''the''} 0 [] ''a'' = []" by blast
  from stopword_pass_gates [OF ne, of "''internationalization''" "\<lambda>w. w" 0 "[]" "[]"] b
  have 2: "add_word (\<lambda>w. w) {''the''} 0 [] ''internationalization'' = []" by blast
  from stopword_pass_gates [OF ne, of "''the''" "\<lambda>w. w" 0 "[]" "[]"] c
  have 3: "add_word (\<lambda>w. w) {''the''} 0 [] ''the'' = []" by blast
  from stopword_pass_gates [OF ne, of "''read''" "\<lambda>w. ''the''" 0 "[]" "[]"] d
  have 4: "add_word (\<lambda>w. ''the'') {''the''} 0 [] ''read'' = increment [] (replace_synonyms ''the'') 0"
    by blast
  show ?thesis by (intro conjI ne 1 2 3 4)
qed

section \<open>The three passes (C2)\<close>

text \<open>
  C2: the accumulation is the method-name pass with the base stopword set, then the
  token pass with the base set extended by \<open>new\<close>, then the API pass with stopwords
  disabled, in this order. Hence the count stored for a term and a document is the
  number of its occurrences among the surviving terms of the method name under the base
  set, plus those of the tokens under the extended set, plus, for the term \<open>[]\<close>
  only, the number of literal \<open>[]\<close> tokens of the API sequence: in a pass without
  stopwords every \<open>[]\<close> token is one increment of the term \<open>[]\<close> for its document and
  no other token changes a count. (An empty base set is falsy, so the method-name pass
  then counts only the literal \<open>[]\<close> tokens of the method name.)
\<close>

theorem accumulation_three_passes:
  "accumulate stem S methnames tokens apiseqs =
     add_to_index stem
       (add_to_index stem (add_to_index stem [] methnames (Some S))
          tokens (Some (insert ''new'' S)))
       apiseqs None
   \<and> tf (accumulate stem S methnames tokens apiseqs) t i =
       (if S = {} then count_list (filter (\<lambda>word. word = ''[]'') (doc methnames i)) t
        else count_list (surviving_terms stem (Some S) (doc methnames i)) t)
     + count_list (surviving_terms stem (Some (insert ''new'' S)) (doc tokens i)) t
     + (if t = ''[]'' then count_list (doc apiseqs i) ''[]'' else 0)
   \<and> tf (add_to_index stem index lines None) t i =
       tf index t i + (if t = ''[]'' then count_list (doc lines i) ''[]'' else 0)"
proof (intro conjI)
  show "accumulate stem S methnames tokens apiseqs =
     add_to_index stem
       (add_to_index stem (add_to_index stem [] methnames (Some S))
          tokens (Some (insert ''new'' S)))
       apiseqs None"
    by (simp add: accumulate_def)
  have new: "counted_terms stem (Some (insert ''new'' S)) (doc tokens i)
               = surviving_terms stem (Some (insert ''new'' S)) (doc tokens i)"
    by (rule counted_terms_enabled) simp
  have base: "count_list (counted_terms stem (Some S) (doc methnames i)) t =
       (if S = {} then count_list (filter (\<lambda>word. word = ''[]'') (doc methnames i)) t
        else count_list (surviving_terms stem (Some S) (doc methnames i)) t)"
    by (simp add: counted_terms_empty counted_terms_enabled)
  show "tf (accumulate stem S methnames tokens apiseqs) t i =
       (if S = {} then count_list (filter (\<lambda>word. word = ''[]'') (doc methnames i)) t
        else count_list (surviving_terms stem (Some S) (doc methnames i)) t)
     + count_list (surviving_terms stem (Some (insert ''new'' S)) (doc tokens i)) t
     + (if t = ''[]'' then count_list (doc apiseqs i) ''[]'' else 0)"
    unfolding tf_accumulate new base
    by (simp add: counted_terms_disabled surviving_terms_disabled count_list_filter_eq)
  show "tf (add_to_index stem index lines None) t i =
       tf index t i + (if t = ''[]'' then count_list (doc lines i) ''[]'' else 0)"
    by (simp add: tf_add_to_index counted_terms_disabled surviving_terms_disabled
          count_list_filter_eq)
qed

theorem accumulation_three_passes_witness:
  "tf (accumulate (\<lambda>w. w) {''the''} [[''new'', ''the'']] [[''new'', ''read'']]
         [[''[]'', ''List'', ''[]'']]) ''creat'' 0 = 1
   \<and> tf (accumulate (\<lambda>w. w) {''the''} [[''new'', ''the'']] [[''new'', ''read'']]
         [[''[]'', ''List'', ''[]'']]) ''[]'' 0 = 2
   \<and> tf (accumulate (\<lambda>w. w) {''the''} [[''new'', ''the'']] [[''new'', ''read'']]
         [[''[]'', ''List'', ''[]'']]) ''List'' 0 = 0"
proof -
  note t = accumulation_three_passes [of "\<lambda>w. w" "{''the''}" "[[''new'', ''the'']]"
      "[[''new'', ''read'']]" "[[''[]'', ''List'', ''[]'']]" _ 0 "[]" "[]"]
  have 1: "(if {''the''} = ({} :: string set)
        then count_list (filter (\<lambda>word. word = ''[]'') (doc [[''new'', ''the'']] 0)) ''creat''
        else count_list (surviving_terms (\<lambda>w. w) (Some {''the''}) (doc [[''new'', ''the'']] 0)) ''creat'')
     + count_list (surviving_terms (\<lambda>w. w) (Some (insert ''new'' {''the''})) (doc [[''new'', ''read'']] 0)) ''creat''
     + (if ''creat'' = ''[]'' then count_list (doc [[''[]'', ''List'', ''[]'']] 0) ''[]'' else 0) = 1"
    by code_simp
  have 2: "(if {''the''} = ({} :: string set)
        then count_list (filter (\<lambda>word. word = ''[]'') (doc [[''new'', ''the'']] 0)) ''[]''
        else count_list (surviving_terms (\<lambda>w. w) (Some {''the''}) (doc [[''new'', ''the'']] 0)) ''[]'')
     + count_list (surviving_terms (\<lambda>w. w) (Some (insert ''new'' {''the''})) (doc [[''new'', ''read'']] 0)) ''[]''
     + (if ''[]'' = ''[]'' then count_list (doc [[''[]'', ''List'', ''[]'']] 0) ''[]'' else 0) = 2"
    by code_simp
  have 3: "(if {''the''} = ({} :: string set)
        then count_list (filter (\<lambda>word. word = ''[]'') (doc [[''new'', ''the'']] 0)) ''List''
        else count_list (surviving_terms (\<lambda>w. w) (Some {''the''}) (doc [[''new'', ''the'']] 0)) ''List'')
     + count_list (surviving_terms (\<lambda>w. w) (Some (insert ''new'' {''the''})) (doc [[''new'', ''read'']] 0)) ''List''
     + (if ''List'' = ''[]'' then count_list (doc [[''[]'', ''List'', ''[]'']] 0) ''[]'' else 0) = 0"
    by code_simp
  have a: "tf (accumulate (\<lambda>w. w) {''the''} [[''new'', ''the'']] [[''new'', ''read'']]
         [[''[]'', ''List'', ''[]'']]) ''creat'' 0 = 1"
    by (rule trans [OF t [of "''creat''", THEN conjunct2, THEN conjunct1] 1])
  have b: "tf (accumulate (\<lambda>w. w) {''the''} [[''new'', ''the'']] [[''new'', ''read'']]
         [[''[]'', ''List'', ''[]'']]) ''[]'' 0 = 2"
    by (rule trans [OF t [of "''[]''", THEN conjunct2, THEN conjunct1] 2])
  have c: "tf (accumulate (\<lambda>w. w) {''the''} [[''new'', ''the'']] [[''new'', ''read'']]
         [[''[]'', ''List'', ''[]'']]) ''List'' 0 = 0"
    by (rule trans [OF t [of "''List''", THEN conjunct2, THEN conjunct1] 3])
  show ?thesis by (intro conjI a b c)
qed

section \<open>Completeness of the postings (C7)\<close>

lemma weight_term_no_zero_division:
  "cnt \<noteq> [] \<Longrightarrow> weight_term n cnt \<noteq> Inl (ZeroDivisionError m)"
  by (auto simp: weight_term_def true_div_def log10_def split: sum.splits if_splits)

lemma weighting_pass_no_zero_division:
  "\<forall>(t, cnt) \<in> set index. cnt \<noteq> [] \<Longrightarrow> weighting_pass n index \<noteq> Inl (ZeroDivisionError m)"
proof (induction index)
  case Nil
  show ?case by simp
next
  case (Cons p index)
  obtain w cnt where p: "p = (w, cnt)" by (cases p)
  with Cons.prems have "cnt \<noteq> []" by simp
  then have "weight_term n cnt \<noteq> Inl (ZeroDivisionError m)"
    by (rule weight_term_no_zero_division)
  moreover from Cons have "weighting_pass n index \<noteq> Inl (ZeroDivisionError m)" by simp
  ultimately show ?case using p by (auto split: sum.splits)
qed

text \<open>
  C7, as stated, fails for an empty base stopword set: \<open>if stopwords:\<close> sends the
  method-name pass into the branch that counts only \<open>[]\<close> tokens, so the method name
  \<open>get\<close>, a surviving normalized term of document 0 under the empty stopword set, has
  no postings entry; the accumulated index is empty.
\<close>

theorem empty_stopword_set_drops_method_names:
  "''get'' \<in> set (surviving_terms (\<lambda>w. w) (Some {}) (doc [[''get'', ''name'']] 0))
   \<and> \<not> has_posting (accumulate (\<lambda>w. w) {} [[''get'', ''name'']] [] []) ''get'' 0
   \<and> accumulate (\<lambda>w. w) {} [[''get'', ''name'']] [] [] = []"
  by code_simp

text \<open>
  C7, amended: provided the base stopword set is not empty, after accumulation a term
  has a postings entry for a document id iff the term is among the surviving normalized
  terms of that document's method name (base set), tokens (base set and \<open>new\<close>) or
  API sequence (stopwords disabled). For every stopword set every counter of the index
  is non-empty (\<open>df \<ge> 1\<close>) and every stored count is at least 1, so the weighting
  pass never fails with a division by zero.
\<close>

theorem postings_complete:
  "(S \<noteq> {} \<longrightarrow>
      (has_posting (accumulate stem S methnames tokens apiseqs) t i \<longleftrightarrow>
          t \<in> set (surviving_terms stem (Some S) (doc methnames i))
        \<or> t \<in> set (surviving_terms stem (Some (insert ''new'' S)) (doc tokens i))
        \<or> t \<in> set (surviving_terms stem None (doc apiseqs i))))
   \<and> (\<forall>(w, cnt) \<in> set (accumulate stem S methnames tokens apiseqs).
         1 \<le> length cnt \<and> (\<forall>(d, c) \<in> set cnt. 1 \<le> c))
   \<and> weighting_pass n (accumulate stem S methnames tokens apiseqs) \<noteq> Inl (ZeroDivisionError m)"
proof -
  let ?acc = "accumulate stem S methnames tokens apiseqs"
  have wf: "well_formed ?acc" by (rule well_formed_accumulate)
  have ht: "has_posting ?acc t i \<longleftrightarrow> 1 \<le> tf ?acc t i"
    using wf by (rule has_posting_tf)
  have 1: "has_posting ?acc t i \<longleftrightarrow>
        t \<in> set (surviving_terms stem (Some S) (doc methnames i))
      \<or> t \<in> set (surviving_terms stem (Some (insert ''new'' S)) (doc tokens i))
      \<or> t \<in> set (surviving_terms stem None (doc apiseqs i))" if ne: "S \<noteq> {}"
  proof -
    have e: "tf ?acc t i =
         count_list (surviving_terms stem (Some S) (doc methnames i)) t
       + count_list (surviving_terms stem (Some (insert ''new'' S)) (doc tokens i)) t
       + count_list (surviving_terms stem None (doc apiseqs i)) t"
      using ne by (simp add: tf_accumulate counted_terms_enabled counted_terms_disabled)
    show ?thesis unfolding ht e
      by (metis One_nat_def Suc_le_eq add_gr_0 count_list_0_iff neq0_conv)
  qed
  have 2: "\<forall>(w, cnt) \<in> set ?acc. 1 \<le> length cnt \<and> (\<forall>(d, c) \<in> set cnt. 1 \<le> c)"
    using wf by (auto simp: well_formed_def Suc_le_eq)
  then have "\<forall>(w, cnt) \<in> set ?acc. cnt \<noteq> []" by auto
  then have 3: "weighting_pass n ?acc \<noteq> Inl (ZeroDivisionError m)"
    by (rule weighting_pass_no_zero_division)
  from 1 2 3 show ?thesis by blast
qed

theorem postings_complete_witness:
  "has_posting (accumulate (\<lambda>w. w) {''the''} [[''new'', ''the'']] [[''new'', ''read'']]
      [[''[]'', ''List'']]) ''creat'' 0
   \<and> \<not> has_posting (accumulate (\<lambda>w. w) {''the''} [[''new'', ''the'']] [[''new'', ''read'']]
      [[''[]'', ''List'']]) ''the'' 0
   \<and> weighting_pass 1 (accumulate (\<lambda>w. w) {''the''} [[''new'', ''the'']] [[''new'', ''read'']]
      [[''[]'', ''List'']]) \<noteq> Inl (ZeroDivisionError ''division by zero'')"
proof -
  note t = postings_complete [of "{''the''}" "\<lambda>w. w" "[[''new'', ''the'']]"
      "[[''new'', ''read'']]" "[[''[]'', ''List'']]" _ 0 1 "''division by zero''"]
  have ne: "{''the''} \<noteq> ({} :: string set)" by simp
  have 1: "''creat'' \<in> set (surviving_terms (\<lambda>w. w) (Some {''the''}) (doc [[''new'', ''the'']] 0))"
    by code_simp
  have 2: "''the'' \<notin> set (surviving_terms (\<lambda>w. w) (Some {''the''}) (doc [[''new'', ''the'']] 0))"
    by code_simp
  have 3: "''the'' \<notin> set (surviving_terms (\<lambda>w. w) (Some (insert ''new'' {''the''}))
             (doc [[''new'', ''read'']] 0))"
    by code_simp
  have 4: "''the'' \<notin> set (surviving_terms (\<lambda>w. w) None (doc [[''[]'', ''List'']] 0))"
    by code_simp
  from t [of "''creat''"] ne 1 have a: "has_posting (accumulate (\<lambda>w. w) {''the''} [[''new'', ''the'']]
      [[''new'', ''read'']] [[''[]'', ''List'']]) ''creat'' 0"
    by blast
  from t [of "''the''"] ne 2 3 4 have b: "\<not> has_posting (accumulate (\<lambda>w. w) {''the''}
      [[''new'', ''the'']] [[''new'', ''read'']] [[''[]'', ''List'']]) ''the'' 0"
    by blast
  from t [of "''the''"] have c: "weighting_pass 1 (accumulate (\<lambda>w. w) {''the''}
      [[''new'', ''the'']] [[''new'', ''read'']] [[''[]'', ''List'']])
        \<noteq> Inl (ZeroDivisionError ''division by zero'')"
    by blast
  show ?thesis by (intro conjI a b c)
qed

section \<open>Facts about weighting and ordering\<close>

lemma weight_term_Inr:
  "weight_term n cnt = Inr ps \<Longrightarrow> ps = weigh n cnt"
  by (auto simp: weight_term_def true_div_def log10_def idf_def weigh_def
           split: sum.splits if_splits)

lemma weight_term_ok:
  assumes "0 < n" "cnt \<noteq> []"
  shows "weight_term n cnt = Inr (weigh n cnt)"
proof -
  from assms have "0 < real n / real (length cnt)" by simp
  then have "\<not> real n / real (length cnt) \<le> 0" by linarith
  with assms show ?thesis
    by (simp add: weight_term_def true_div_def log10_def idf_def weigh_def)
qed

lemma weighting_pass_Inr:
  "weighting_pass n index = Inr w \<Longrightarrow> w = map (\<lambda>(t, cnt). (t, weigh n cnt)) index"
proof (induction index arbitrary: w)
  case Nil
  then show ?case by simp
next
  case (Cons p index)
  obtain t cnt where p: "p = (t, cnt)" by (cases p)
  from Cons.prems p obtain ps ws where
    "weight_term n cnt = Inr ps" "weighting_pass n index = Inr ws" "w = (t, ps) # ws"
    by (auto split: sum.splits)
  with Cons.IH [of ws] p show ?case by (simp add: weight_term_Inr)
qed

lemma weighting_pass_ok:
  "0 < n \<Longrightarrow> \<forall>(t, cnt) \<in> set index. cnt \<noteq> [] \<Longrightarrow>
     weighting_pass n index = Inr (map (\<lambda>(t, cnt). (t, weigh n cnt)) index)"
  by (induction index) (auto simp: weight_term_ok)

lemma finished_index_Inr:
  "finished_index stem S methnames tokens apiseqs = Inr index \<Longrightarrow>
     index = sort_pass (map (\<lambda>(t, cnt). (t, weigh (length methnames) cnt))
                          (accumulate stem S methnames tokens apiseqs))"
  by (auto simp: finished_index_def Let_def split: sum.splits dest: weighting_pass_Inr)

lemma map_of_sort_pass:
  "map_of (sort_pass (map (\<lambda>(t, cnt). (t, weigh n cnt)) index)) t =
     map_option (\<lambda>cnt. sort_postings (weigh n cnt)) (map_of index t)"
  by (induction index) (auto simp: sort_pass_def)

lemma length_card_ids:
  "distinct (map fst cnt) \<Longrightarrow> length cnt = card (fst ` set cnt)"
  by (metis distinct_card length_map set_map)

lemma map_fst_weigh: "map fst (weigh n cnt) = map fst cnt"
  by (simp add: weigh_def case_prod_unfold)

lemma sort_postings_ordered:
  assumes "distinct (map fst ps)"
  shows "sorted_wrt (\<lambda>(d1, w1) (d2, w2). w2 < w1 \<or> (w1 = w2 \<and> d1 < d2)) (sort_postings ps)"
proof -
  let ?k = "\<lambda>x :: nat \<times> real. (- snd x, fst x)"
  have inj: "inj_on ?k (set ps)" using assms
    by (auto simp: inj_on_def intro: prod_eqI)
  have "distinct ps" using assms by (rule distinct_map [THEN iffD1, THEN conjunct1])
  then have "distinct (map ?k (sort_key ?k ps))"
    using inj by (simp add: distinct_map)
  moreover have "sorted (map ?k (sort_key ?k ps))" by simp
  ultimately have "sorted_wrt (<) (map ?k (sort_key ?k ps))"
    by (simp add: strict_sorted_iff)
  then have "sorted_wrt (\<lambda>x y. ?k x < ?k y) (sort_key ?k ps)"
    by (simp add: sorted_wrt_map)
  then show ?thesis unfolding sort_postings_def
    by (rule sorted_wrt_mono_rel [rotated]) (auto simp: less_prod_def)
qed

lemma idf_nonneg: "1 \<le> df \<Longrightarrow> df \<le> n \<Longrightarrow> 0 \<le> idf n df"
  unfolding idf_def by (subst zero_le_log_cancel_iff) (auto simp: field_simps)

lemma idf_zero_iff:
  assumes "1 \<le> df" "1 \<le> n"
  shows "idf n df = 0 \<longleftrightarrow> df = n"
proof -
  from assms have pos: "0 < real n / real df" by simp
  have "idf n df = 0 \<longleftrightarrow> 0 \<le> log 10 (real n / real df) \<and> log 10 (real n / real df) \<le> 0"
    unfolding idf_def by linarith
  also have "\<dots> \<longleftrightarrow> 1 \<le> real n / real df \<and> real n / real df \<le> 1"
    using pos by (simp add: zero_le_log_cancel_iff log_le_zero_cancel_iff)
  also have "\<dots> \<longleftrightarrow> real n / real df = 1" by linarith
  also have "\<dots> \<longleftrightarrow> df = n" using assms by (auto simp: field_simps)
  finally show ?thesis .
qed

lemma idf_strict_antimono:
  assumes "1 \<le> n" "1 \<le> df" "df < df'"
  shows "idf n df' < idf n df"
proof -
  from assms have "real n / real df' < real n / real df"
    by (intro divide_strict_left_mono) simp_all
  moreover from assms have "0 < real n / real df'" "0 < real n / real df" by simp_all
  ultimately show ?thesis unfolding idf_def by simp
qed

lemma has_posting_ids:
  "map_of index t = Some cnt \<Longrightarrow> has_posting index t i \<longleftrightarrow> i \<in> fst ` set cnt"
  by (simp add: has_posting_def map_of_eq_None_iff)

lemma zero_weights_shape:
  "\<forall>y \<in> set ys. snd y = (0 :: real) \<Longrightarrow> ys = map (\<lambda>i. (i, 0)) (map fst ys)"
  by (induction ys) (auto simp: prod_eq_iff)

lemma sort_zero_weights:
  fixes cnt :: postings
  assumes d: "distinct (map fst cnt)" and s: "fst ` set cnt = {0..<n}"
  shows "sort_postings (map (\<lambda>(d, tf). (d, 0)) cnt) = map (\<lambda>i. (i, 0)) [0..<n]"
proof -
  let ?k = "\<lambda>x :: nat \<times> real. (- snd x, fst x)"
  let ?xs = "map (\<lambda>(d, tf :: nat). (d, 0 :: real)) cnt"
  let ?ys = "sort_key ?k ?xs"
  have fst_xs: "map fst ?xs = map fst cnt" by (simp add: case_prod_unfold)
  have zero: "\<forall>y \<in> set ?ys. snd y = 0" by auto
  then have e: "map ?k ?ys = map (\<lambda>y. (0, fst y)) ?ys" by (intro map_cong) auto
  have "sorted (map ?k ?ys)" by (rule sorted_sort_key)
  then have "sorted (map (\<lambda>y. (0 :: real, fst y)) ?ys)" by (simp only: e)
  then have sorted: "sorted (map fst ?ys)"
    by (simp add: sorted_map less_eq_prod_def)
  have dxs: "distinct (map fst ?xs)" using d by (simp only: fst_xs)
  then have "distinct ?xs" by (rule distinct_map [THEN iffD1, THEN conjunct1])
  then have "distinct ?ys" by simp
  moreover have "inj_on fst (set ?ys)"
  proof (rule inj_onI)
    fix x y assume xy: "x \<in> set ?ys" "y \<in> set ?ys" and f: "fst x = fst y"
    from zero xy have "snd x = 0" "snd y = 0" by blast+
    with f show "x = y" by (simp add: prod_eq_iff)
  qed
  ultimately have dist: "distinct (map fst ?ys)" by (simp add: distinct_map)
  have "set (map fst ?ys) = fst ` set ?ys" by (rule set_map)
  also have "\<dots> = fst ` set ?xs" by (simp only: set_sort)
  also have "\<dots> = set (map fst ?xs)" by (rule set_map [symmetric])
  also have "\<dots> = fst ` set cnt" by (simp only: fst_xs set_map)
  finally have set: "set (map fst ?ys) = {0..<n}" using s by simp
  have ids: "map fst ?ys = [0..<n]"
    using sorted dist set by (intro sorted_distinct_set_unique) auto
  have "?ys = map (\<lambda>i. (i, 0)) (map fst ?ys)"
    using zero by (rule zero_weights_shape)
  then show ?thesis unfolding sort_postings_def ids .
qed

lemma weigh_universal:
  "idf n (length cnt) = 0 \<Longrightarrow> weigh n cnt = map (\<lambda>(d, tf). (d, 0)) cnt"
  by (simp add: weigh_def)

lemma store_corpus_finished:
  "finished_index (\<lambda>w. w) {''the''}
      [[''store''], [''store'', ''store'', ''store''], [], [], [], [], [], [], [], []] [] []
     = Inr (sort_pass [(''store'', [(0, log 10 5 * log 10 2), (1, log 10 5 * log 10 4)])])"
proof -
  have acc: "accumulate (\<lambda>w. w) {''the''}
      [[''store''], [''store'', ''store'', ''store''], [], [], [], [], [], [], [], []] [] []
     = [(''store'', [(0, 1), (1, 3)])]"
    by code_simp
  have len: "length [[''store''], [''store'', ''store'', ''store''], [], [], [], [], [], [], [],
      [] :: string list] = 10"
    by simp
  have w: "weighting_pass 10 [(''store'', [(0, 1), (1, 3)])]
     = Inr [(''store'', [(0, log 10 5 * log 10 2), (1, log 10 5 * log 10 4)])]"
    by (simp add: weight_term_def true_div_def log10_def)
  show ?thesis
    by (simp only: finished_index_def Let_def acc len w sum.case)
qed

lemma finished_index_ok:
  assumes "0 < length methnames"
  shows "finished_index stem S methnames tokens apiseqs
           = Inr (sort_pass (map (\<lambda>(t, cnt). (t, weigh (length methnames) cnt))
                    (accumulate stem S methnames tokens apiseqs)))"
proof -
  have "well_formed (accumulate stem S methnames tokens apiseqs)"
    by (rule well_formed_accumulate)
  then have "\<forall>(w, c) \<in> set (accumulate stem S methnames tokens apiseqs). c \<noteq> []"
    by (auto simp: well_formed_def)
  with assms have "weighting_pass (length methnames) (accumulate stem S methnames tokens apiseqs)
      = Inr (map (\<lambda>(w, c). (w, weigh (length methnames) c))
               (accumulate stem S methnames tokens apiseqs))"
    by (rule weighting_pass_ok)
  then show ?thesis by (simp add: finished_index_def)
qed

lemma set_sort_postings: "set (sort_postings ps) = set ps"
  by (simp add: sort_postings_def)

lemma length_sort_postings: "length (sort_postings ps) = length ps"
  by (simp add: sort_postings_def)

lemma distinct_ids_sort_postings:
  assumes "distinct (map fst ps)"
  shows "distinct (map fst (sort_postings ps))"
proof -
  from assms have "distinct ps" "inj_on fst (set ps)" by (simp_all add: distinct_map)
  then show ?thesis by (simp add: distinct_map sort_postings_def)
qed

lemma map_of_sort_postings:
  assumes "distinct (map fst ps)"
  shows "map_of (sort_postings ps) = map_of ps"
  using assms distinct_ids_sort_postings [OF assms]
  by (simp add: map_of_inject_set set_sort_postings)

lemma map_of_map_value:
  "map_of (map (\<lambda>(d, tf). (d, f tf)) cnt) d = map_option f (map_of cnt d)"
  by (induction cnt) auto

lemma map_of_weigh:
  "map_of (weigh n cnt) d
     = map_option (\<lambda>tf. idf n (length cnt) * log 10 (1 + real tf)) (map_of cnt d)"
  unfolding weigh_def by (rule map_of_map_value)

lemma set_weigh:
  "set (weigh n cnt) = (\<lambda>(d, tf). (d, idf n (length cnt) * log 10 (1 + real tf))) ` set cnt"
  by (simp add: weigh_def)

lemma map_fst_sort_pass:
  "map fst (sort_pass (map (\<lambda>(t, cnt). (t, weigh n cnt)) index)) = map fst index"
  by (induction index) (auto simp: sort_pass_def)

lemma finished_entry:
  assumes "(t, ps) \<in> set (sort_pass (map (\<lambda>(t, cnt). (t, weigh n cnt)) index))"
  shows "\<exists>cnt. (t, cnt) \<in> set index \<and> ps = sort_postings (weigh n cnt)"
  using assms by (auto simp: sort_pass_def)

lemma store_sorted:
  "sort_postings [(d, log 10 5 * log 10 2), (d', log 10 5 * log 10 4)]
     = [(d', log 10 5 * log 10 4), (d, log 10 5 * log 10 2)]"
proof -
  have "log 10 5 * log 10 2 < log 10 5 * log 10 (4::real)"
    by (intro mult_strict_left_mono) simp_all
  then show ?thesis by (simp add: sort_postings_def less_eq_prod_def)
qed

lemma weighting_pass_no_documents:
  assumes "weighting_pass 0 index = Inr w" "\<forall>(t, cnt) \<in> set index. cnt \<noteq> []"
  shows "index = []"
proof (cases index)
  case Nil
  then show ?thesis .
next
  case (Cons p rest)
  obtain t cnt where p: "p = (t, cnt)" by (cases p)
  with Cons assms(2) have "cnt \<noteq> []" by simp
  then have "weight_term 0 cnt = Inl (ValueError ''math domain error'')"
    by (simp add: weight_term_def true_div_def log10_def)
  with assms(1) Cons p show ?thesis by simp
qed

lemma finished_index_no_documents:
  assumes "length methnames = 0" "finished_index stem S methnames tokens apiseqs = Inr index"
  shows "index = []"
proof -
  let ?acc = "accumulate stem S methnames tokens apiseqs"
  have "well_formed ?acc" by (rule well_formed_accumulate)
  then have ne: "\<forall>(t, cnt) \<in> set ?acc. cnt \<noteq> []" by (auto simp: well_formed_def)
  from assms obtain w where w: "weighting_pass 0 ?acc = Inr w" "index = sort_pass w"
    by (auto simp: finished_index_def split: sum.splits)
  from weighting_pass_no_documents [OF w(1) ne] w show ?thesis
    by (simp add: sort_pass_def)
qed

lemma finished_index_content:
  assumes pos: "0 < length methnames"
  shows "\<exists>index.
            finished_index stem S methnames tokens apiseqs = Inr index
          \<and> index = sort_pass (map (\<lambda>(t, cnt).
                      (t, map (\<lambda>(d, tf). (d, log 10 (real (length methnames) / real (length cnt))
                                               * log 10 (1 + real tf))) cnt))
                    (accumulate stem S methnames tokens apiseqs))
          \<and> map fst index = map fst (accumulate stem S methnames tokens apiseqs)
          \<and> (\<forall>t. map_of (accumulate stem S methnames tokens apiseqs) t = None
                 \<longrightarrow> map_of index t = None)
          \<and> (\<forall>t cnt. map_of (accumulate stem S methnames tokens apiseqs) t = Some cnt \<longrightarrow>
                length cnt = card (fst ` set cnt)
              \<and> (\<exists>ps. map_of index t = Some ps \<and> length ps = length cnt
                    \<and> (\<forall>d. map_of ps d =
                          map_option (\<lambda>tf. log 10 (real (length methnames) / real (length cnt))
                                             * log 10 (1 + real tf)) (map_of cnt d))))"
proof -
  let ?n = "length methnames"
  let ?acc = "accumulate stem S methnames tokens apiseqs"
  let ?index = "sort_pass (map (\<lambda>(t, cnt). (t, weigh ?n cnt)) ?acc)"
  have wf: "well_formed ?acc" by (rule well_formed_accumulate)
  have fin: "finished_index stem S methnames tokens apiseqs = Inr ?index"
    using pos by (rule finished_index_ok)
  have eq: "?index = sort_pass (map (\<lambda>(t, cnt).
                      (t, map (\<lambda>(d, tf). (d, log 10 (real ?n / real (length cnt))
                                               * log 10 (1 + real tf))) cnt)) ?acc)"
    by (simp add: weigh_def idf_def)
  have keys: "map fst ?index = map fst ?acc" by (rule map_fst_sort_pass)
  have none: "\<forall>t. map_of ?acc t = None \<longrightarrow> map_of ?index t = None"
    by (simp add: map_of_sort_pass)
  have some: "\<forall>t cnt. map_of ?acc t = Some cnt \<longrightarrow>
                length cnt = card (fst ` set cnt)
              \<and> (\<exists>ps. map_of ?index t = Some ps \<and> length ps = length cnt
                    \<and> (\<forall>d. map_of ps d =
                          map_option (\<lambda>tf. log 10 (real ?n / real (length cnt))
                                             * log 10 (1 + real tf)) (map_of cnt d)))"
  proof (intro allI impI)
    fix t cnt assume t: "map_of ?acc t = Some cnt"
    then have "(t, cnt) \<in> set ?acc" by (rule map_of_SomeD)
    with wf have dist: "distinct (map fst cnt)" by (auto simp: well_formed_def)
    then have card: "length cnt = card (fst ` set cnt)" by (rule length_card_ids)
    let ?ps = "sort_postings (weigh ?n cnt)"
    have 1: "map_of ?index t = Some ?ps" by (simp add: map_of_sort_pass t)
    have 2: "length ?ps = length cnt" by (simp add: length_sort_postings weigh_def)
    have "distinct (map fst (weigh ?n cnt))" using dist by (simp add: map_fst_weigh)
    then have "map_of ?ps = map_of (weigh ?n cnt)" by (rule map_of_sort_postings)
    then have 3: "\<forall>d. map_of ?ps d =
                          map_option (\<lambda>tf. log 10 (real ?n / real (length cnt))
                                             * log 10 (1 + real tf)) (map_of cnt d)"
      by (simp add: map_of_weigh idf_def)
    from card 1 2 3 show "length cnt = card (fst ` set cnt)
              \<and> (\<exists>ps. map_of ?index t = Some ps \<and> length ps = length cnt
                    \<and> (\<forall>d. map_of ps d =
                          map_option (\<lambda>tf. log 10 (real ?n / real (length cnt))
                                             * log 10 (1 + real tf)) (map_of cnt d)))"
      by blast
  qed
  from fin eq keys none some
  show "\<exists>index.
            finished_index stem S methnames tokens apiseqs = Inr index
          \<and> index = sort_pass (map (\<lambda>(t, cnt).
                      (t, map (\<lambda>(d, tf). (d, log 10 (real (length methnames) / real (length cnt))
                                               * log 10 (1 + real tf))) cnt))
                    (accumulate stem S methnames tokens apiseqs))
          \<and> map fst index = map fst (accumulate stem S methnames tokens apiseqs)
          \<and> (\<forall>t. map_of (accumulate stem S methnames tokens apiseqs) t = None
                 \<longrightarrow> map_of index t = None)
          \<and> (\<forall>t cnt. map_of (accumulate stem S methnames tokens apiseqs) t = Some cnt \<longrightarrow>
                length cnt = card (fst ` set cnt)
              \<and> (\<exists>ps. map_of index t = Some ps \<and> length ps = length cnt
                    \<and> (\<forall>d. map_of ps d =
                          map_option (\<lambda>tf. log 10 (real (length methnames) / real (length cnt))
                                             * log 10 (1 + real tf)) (map_of cnt d))))"
    by (intro exI [of _ ?index] conjI)
qed

section \<open>The weighting formula (C1)\<close>

text \<open>
  C1: a build over at least one method-name document always finishes, and its index is
  the accumulated index in which every raw count \<open>tf\<close> of a term is replaced by
  \<open>idf * log10 (1 + tf)\<close> with \<open>idf = log10 (N / df)\<close>, \<open>N\<close> the number of
  documents of the method-name field and \<open>df\<close> the length of the term's counter, which
  is the number of its distinct document ids: the finished index has the same terms,
  every term keeps all its postings, and the weight stored for a document is that
  formula of the count stored before. (With no method-name document a finished index
  has no term.) For \<open>N = 10\<close> and a term with counts 1 and 3 in two documents,
  \<open>idf = log10 5\<close>, the weights are \<open>log10 5 * log10 2\<close> and \<open>log10 5 * log10 4\<close>,
  and the document with count 3 is stored first. (Floats are read as real numbers.)
\<close>

theorem weighting_formula:
  "(0 < length methnames \<longrightarrow>
      (\<exists>index.
            finished_index stem S methnames tokens apiseqs = Inr index
          \<and> index = sort_pass (map (\<lambda>(t, cnt).
                      (t, map (\<lambda>(d, tf). (d, log 10 (real (length methnames) / real (length cnt))
                                               * log 10 (1 + real tf))) cnt))
                    (accumulate stem S methnames tokens apiseqs))
          \<and> map fst index = map fst (accumulate stem S methnames tokens apiseqs)
          \<and> (\<forall>t. map_of (accumulate stem S methnames tokens apiseqs) t = None
                 \<longrightarrow> map_of index t = None)
          \<and> (\<forall>t cnt. map_of (accumulate stem S methnames tokens apiseqs) t = Some cnt \<longrightarrow>
                length cnt = card (fst ` set cnt)
              \<and> (\<exists>ps. map_of index t = Some ps \<and> length ps = length cnt
                    \<and> (\<forall>d. map_of ps d =
                          map_option (\<lambda>tf. log 10 (real (length methnames) / real (length cnt))
                                             * log 10 (1 + real tf)) (map_of cnt d))))))
   \<and> (length methnames = 0 \<longrightarrow>
        (\<forall>index. finished_index stem S methnames tokens apiseqs = Inr index \<longrightarrow> index = []))
   \<and> idf 10 2 = log 10 5
   \<and> weight_term 10 [(0, 1), (1, 3)] = Inr [(0, log 10 5 * log 10 2), (1, log 10 5 * log 10 4)]
   \<and> sort_postings [(0, log 10 5 * log 10 2), (1, log 10 5 * log 10 4)]
        = [(1, log 10 5 * log 10 4), (0, log 10 5 * log 10 2)]"
proof (intro conjI impI allI)
  assume "0 < length methnames"
  then show "\<exists>index.
            finished_index stem S methnames tokens apiseqs = Inr index
          \<and> index = sort_pass (map (\<lambda>(t, cnt).
                      (t, map (\<lambda>(d, tf). (d, log 10 (real (length methnames) / real (length cnt))
                                               * log 10 (1 + real tf))) cnt))
                    (accumulate stem S methnames tokens apiseqs))
          \<and> map fst index = map fst (accumulate stem S methnames tokens apiseqs)
          \<and> (\<forall>t. map_of (accumulate stem S methnames tokens apiseqs) t = None
                 \<longrightarrow> map_of index t = None)
          \<and> (\<forall>t cnt. map_of (accumulate stem S methnames tokens apiseqs) t = Some cnt \<longrightarrow>
                length cnt = card (fst ` set cnt)
              \<and> (\<exists>ps. map_of index t = Some ps \<and> length ps = length cnt
                    \<and> (\<forall>d. map_of ps d =
                          map_option (\<lambda>tf. log 10 (real (length methnames) / real (length cnt))
                                             * log 10 (1 + real tf)) (map_of cnt d))))"
    by (rule finished_index_content)
next
  fix index
  assume "length methnames = 0" "finished_index stem S methnames tokens apiseqs = Inr index"
  then show "index = []" by (rule finished_index_no_documents)
next
  show "idf 10 2 = log 10 5" by (simp add: idf_def)
next
  show "weight_term 10 [(0, 1), (1, 3)] = Inr [(0, log 10 5 * log 10 2), (1, log 10 5 * log 10 4)]"
    by (simp add: weight_term_def true_div_def log10_def)
next
  show "sort_postings [(0, log 10 5 * log 10 2), (1, log 10 5 * log 10 4)]
            = [(1, log 10 5 * log 10 4), (0, log 10 5 * log 10 2)]"
    by (rule store_sorted)
qed

theorem weighting_formula_witness:
  "finished_index (\<lambda>w. w) {''the''}
      [[''store''], [''store'', ''store'', ''store''], [], [], [], [], [], [], [], []] [] []
     = Inr [(''store'', [(1, log 10 5 * log 10 4), (0, log 10 5 * log 10 2)])]"
proof -
  have pos: "0 < length [[''store''], [''store'', ''store'', ''store''], [], [], [], [], [], [],
      [], [] :: string list]"
    by simp
  have len: "length [[''store''], [''store'', ''store'', ''store''], [], [], [], [], [], [], [],
      [] :: string list] = 10"
    by simp
  have acc: "accumulate (\<lambda>w. w) {''the''}
      [[''store''], [''store'', ''store'', ''store''], [], [], [], [], [], [], [], []] [] []
     = [(''store'', [(0, 1), (1, 3)])]"
    by code_simp
  note th = weighting_formula [of "[[''store''], [''store'', ''store'', ''store''], [], [], [], [],
      [], [], [], []]" "\<lambda>w. w" "{''the''}" "[]" "[]"]
  from th have s: "sort_postings [(0, log 10 5 * log 10 2), (1, log 10 5 * log 10 4)]
            = [(1, log 10 5 * log 10 4), (0, log 10 5 * log 10 2)]"
    by (elim conjE)
  from th [THEN conjunct1, rule_format, OF pos] obtain index where
    fin: "finished_index (\<lambda>w. w) {''the''}
      [[''store''], [''store'', ''store'', ''store''], [], [], [], [], [], [], [], []] [] []
        = Inr index" and
    idx: "index = sort_pass (map (\<lambda>(t, cnt).
            (t, map (\<lambda>(d, tf). (d, log 10 (real (length [[''store''],
                 [''store'', ''store'', ''store''], [], [], [], [], [], [], [], [] :: string list])
                    / real (length cnt)) * log 10 (1 + real tf))) cnt))
          (accumulate (\<lambda>w. w) {''the''}
             [[''store''], [''store'', ''store'', ''store''], [], [], [], [], [], [], [], []] [] []))"
    by (elim conjE exE)
  have "index = [(''store'', sort_postings [(0, log 10 5 * log 10 2), (1, log 10 5 * log 10 4)])]"
    unfolding idx acc len by (simp add: sort_pass_def)
  then have "index = [(''store'', [(1, log 10 5 * log 10 4), (0, log 10 5 * log 10 2)])]"
    by (simp only: s)
  with fin show ?thesis by (simp only:)
qed

section \<open>The stored order of the postings (C3)\<close>

text \<open>
  C3: a build over at least one method-name document finishes, and in a finished index
  the list stored for a term holds exactly the weighted postings of that term, one for
  every document id of its counter, by weight descending and, among equal weights, by
  document id ascending: of any two stored postings the earlier one has the larger
  weight, or the same weight and the smaller document id. In particular weights never
  increase along the stored order, and two neighbours of equal weight have strictly
  increasing document ids.
\<close>

theorem postings_order:
  "(0 < length methnames \<longrightarrow>
      (\<exists>index. finished_index stem S methnames tokens apiseqs = Inr index))
   \<and> (finished_index stem S methnames tokens apiseqs = Inr index \<longrightarrow>
        (\<forall>(t, ps) \<in> set index.
            sorted_wrt (\<lambda>(d1, w1) (d2, w2). w2 < w1 \<or> (w1 = w2 \<and> d1 < d2)) ps
          \<and> (\<exists>cnt. map_of (accumulate stem S methnames tokens apiseqs) t = Some cnt
                \<and> length ps = length cnt
                \<and> set ps = (\<lambda>(d, tf). (d, log 10 (real (length methnames) / real (length cnt))
                                            * log 10 (1 + real tf))) ` set cnt)))"
proof (intro conjI impI)
  assume "0 < length methnames"
  then show "\<exists>index. finished_index stem S methnames tokens apiseqs = Inr index"
    using finished_index_ok by blast
next
  let ?n = "length methnames"
  let ?acc = "accumulate stem S methnames tokens apiseqs"
  assume fin: "finished_index stem S methnames tokens apiseqs = Inr index"
  have wf: "well_formed ?acc" by (rule well_formed_accumulate)
  have idx: "index = sort_pass (map (\<lambda>(t, cnt). (t, weigh ?n cnt)) ?acc)"
    using fin by (rule finished_index_Inr)
  show "\<forall>(t, ps) \<in> set index.
            sorted_wrt (\<lambda>(d1, w1) (d2, w2). w2 < w1 \<or> (w1 = w2 \<and> d1 < d2)) ps
          \<and> (\<exists>cnt. map_of ?acc t = Some cnt
                \<and> length ps = length cnt
                \<and> set ps = (\<lambda>(d, tf). (d, log 10 (real ?n / real (length cnt))
                                            * log 10 (1 + real tf))) ` set cnt)"
  proof (intro ballI, clarify)
    fix t ps assume "(t, ps) \<in> set index"
    with idx obtain cnt where mem: "(t, cnt) \<in> set ?acc" and ps: "ps = sort_postings (weigh ?n cnt)"
      using finished_entry by blast
    from wf mem have dist: "distinct (map fst cnt)" and keys: "distinct (map fst ?acc)"
      by (auto simp: well_formed_def)
    from keys mem have look: "map_of ?acc t = Some cnt" by (rule map_of_is_SomeI)
    have 1: "sorted_wrt (\<lambda>(d1, w1) (d2, w2). w2 < w1 \<or> (w1 = w2 \<and> d1 < d2)) ps"
      unfolding ps using dist by (intro sort_postings_ordered) (simp add: map_fst_weigh)
    have 2: "length ps = length cnt"
      unfolding ps by (simp add: length_sort_postings weigh_def)
    have 3: "set ps = (\<lambda>(d, tf). (d, log 10 (real ?n / real (length cnt))
                                            * log 10 (1 + real tf))) ` set cnt"
      unfolding ps by (simp add: set_sort_postings set_weigh idf_def)
    from look 1 2 3
    show "sorted_wrt (\<lambda>(d1, w1) (d2, w2). w2 < w1 \<or> (w1 = w2 \<and> d1 < d2)) ps
          \<and> (\<exists>cnt. map_of ?acc t = Some cnt
                \<and> length ps = length cnt
                \<and> set ps = (\<lambda>(d, tf). (d, log 10 (real ?n / real (length cnt))
                                            * log 10 (1 + real tf))) ` set cnt)"
      by blast
  qed
qed

theorem postings_order_witness:
  "finished_index (\<lambda>w. w) {''the''}
      [[''store''], [''store'', ''store'', ''store''], [], [], [], [], [], [], [], []] [] []
     = Inr (sort_pass [(''store'', [(0, log 10 5 * log 10 2), (1, log 10 5 * log 10 4)])])
   \<and> sorted_wrt (\<lambda>(d1, w1) (d2, w2). w2 < w1 \<or> (w1 = w2 \<and> d1 < d2))
         (sort_postings [(0, log 10 5 * log 10 2), (1, log 10 5 * log 10 4)])
   \<and> length (sort_postings [(0, log 10 5 * log 10 2), (1, log 10 5 * log 10 4)]) = 2
   \<and> set (sort_postings [(0, log 10 5 * log 10 2), (1, log 10 5 * log 10 4)])
        = {(0, log 10 5 * log 10 2), (1, log 10 5 * log 10 4)}"
proof -
  let ?ps = "sort_postings [(0 :: nat, log 10 5 * log 10 2), (1, log 10 5 * log 10 4)]"
  have acc: "accumulate (\<lambda>w. w) {''the''}
      [[''store''], [''store'', ''store'', ''store''], [], [], [], [], [], [], [], []] [] []
     = [(''store'', [(0, 1), (1, 3)])]"
    by code_simp
  have len: "length [[''store''], [''store'', ''store'', ''store''], [], [], [], [], [], [], [],
      [] :: string list] = 10"
    by simp
  have mem: "(''store'', ?ps)
          \<in> set (sort_pass [(''store'', [(0, log 10 5 * log 10 2), (1, log 10 5 * log 10 4)])])"
    by (simp add: sort_pass_def)
  note th = postings_order [THEN conjunct2, rule_format, OF store_corpus_finished mem]
  from th have sorted: "sorted_wrt (\<lambda>(d1, w1) (d2, w2). w2 < w1 \<or> (w1 = w2 \<and> d1 < d2)) ?ps"
    by (simp only: prod.case)
  from th obtain cnt where
    c: "map_of (accumulate (\<lambda>w. w) {''the''}
          [[''store''], [''store'', ''store'', ''store''], [], [], [], [], [], [], [], []] [] [])
          ''store'' = Some cnt"
    and l: "length ?ps = length cnt"
    and s: "set ?ps = (\<lambda>(d, tf). (d, log 10 (real (length [[''store''],
                 [''store'', ''store'', ''store''], [], [], [], [], [], [], [], [] :: string list])
                    / real (length cnt)) * log 10 (1 + real tf))) ` set cnt"
    by (simp only: prod.case) (elim conjE exE)
  from c have cnt: "cnt = [(0, 1), (1, 3)]" unfolding acc by simp
  from l have length: "length ?ps = 2" unfolding cnt by simp
  from s have set: "set ?ps = {(0, log 10 5 * log 10 2), (1, log 10 5 * log 10 4)}"
    unfolding cnt len by simp
  show ?thesis by (intro conjI store_corpus_finished sorted length set)
qed

section \<open>Bounds on the inverse document frequency (C6)\<close>

text \<open>
  C6: let the token field and the API field hold at most \<open>N\<close> documents, \<open>N\<close> the
  number of documents of the method-name field. Then for every term of the accumulated
  index the weighting pass multiplies the term's counts by \<open>idf = log10 (N / df)\<close>, as it
  does for every non-empty counter; this \<open>idf\<close> is at least 0, and it is 0 iff the term
  has a posting for every one of the \<open>N\<close> documents; for fixed \<open>N\<close> the \<open>idf\<close> strictly
  decreases as \<open>df\<close> grows; and a term with a posting for all \<open>N\<close> documents is in
  the finished index with all \<open>N\<close> postings, each of weight 0.
\<close>

theorem idf_bounds:
  assumes tok: "length tokens \<le> length methnames"
      and api: "length apiseqs \<le> length methnames"
      and t: "map_of (accumulate stem S methnames tokens apiseqs) t = Some cnt"
  shows "weight_term (length methnames) cnt =
           Inr (map (\<lambda>(d, tf). (d, idf (length methnames) (length cnt) * log 10 (1 + real tf))) cnt)
       \<and> (\<forall>c :: postings. c \<noteq> [] \<longrightarrow>
             weight_term (length methnames) c =
               Inr (map (\<lambda>(d, tf). (d, idf (length methnames) (length c) * log 10 (1 + real tf))) c))
       \<and> idf (length methnames) (length cnt)
             = log 10 (real (length methnames) / real (length cnt))
       \<and> 0 \<le> idf (length methnames) (length cnt)
       \<and> (idf (length methnames) (length cnt) = 0 \<longleftrightarrow>
            (\<forall>i < length methnames. has_posting (accumulate stem S methnames tokens apiseqs) t i))
       \<and> (\<forall>df df'. 1 \<le> df \<and> df < df' \<longrightarrow>
            idf (length methnames) df' < idf (length methnames) df)
       \<and> ((\<forall>i < length methnames. has_posting (accumulate stem S methnames tokens apiseqs) t i) \<longrightarrow>
            (\<exists>index. finished_index stem S methnames tokens apiseqs = Inr index
               \<and> map_of index t = Some (map (\<lambda>i. (i, 0)) [0..<length methnames])))"
proof -
  let ?n = "length methnames"
  let ?acc = "accumulate stem S methnames tokens apiseqs"
  have wf: "well_formed ?acc" by (rule well_formed_accumulate)
  have below: "ids_below ?n ?acc" using tok api by (intro ids_below_accumulate) simp_all
  from t have mem: "(t, cnt) \<in> set ?acc" by (rule map_of_SomeD)
  from wf mem have ne: "cnt \<noteq> []" and dist: "distinct (map fst cnt)"
    by (auto simp: well_formed_def)
  from below mem have "\<forall>(d, c) \<in> set cnt. d < ?n"
    unfolding ids_below_def by blast
  then have sub: "fst ` set cnt \<subseteq> {0..<?n}" by auto
  have card: "length cnt = card (fst ` set cnt)" using dist by (rule length_card_ids)
  have "card (fst ` set cnt) \<le> card {0..<?n}" using sub by (intro card_mono) simp_all
  with card have le: "length cnt \<le> ?n" by simp
  from ne have df1: "1 \<le> length cnt" by (cases cnt) simp_all
  with le have n1: "1 \<le> ?n" by simp
  have univ: "(\<forall>i < ?n. has_posting ?acc t i) \<longleftrightarrow> length cnt = ?n"
  proof
    assume "\<forall>i < ?n. has_posting ?acc t i"
    then have "{0..<?n} \<subseteq> fst ` set cnt"
      using has_posting_ids [OF t] by auto
    with sub have "fst ` set cnt = {0..<?n}" by blast
    with card show "length cnt = ?n" by simp
  next
    assume "length cnt = ?n"
    with card have "card (fst ` set cnt) = card {0..<?n}" by simp
    with sub have "fst ` set cnt = {0..<?n}" by (intro card_subset_eq) simp_all
    then show "\<forall>i < ?n. has_posting ?acc t i"
      using has_posting_ids [OF t] by auto
  qed
  have 1: "0 \<le> idf ?n (length cnt)" using df1 le by (rule idf_nonneg)
  have 2: "idf ?n (length cnt) = 0 \<longleftrightarrow> (\<forall>i < ?n. has_posting ?acc t i)"
    using idf_zero_iff [OF df1 n1] univ by simp
  have 3: "\<forall>df df'. 1 \<le> df \<and> df < df' \<longrightarrow> idf ?n df' < idf ?n df"
    using n1 by (auto intro: idf_strict_antimono)
  have 4: "\<exists>index. finished_index stem S methnames tokens apiseqs = Inr index
               \<and> map_of index t = Some (map (\<lambda>i. (i, 0)) [0..<?n])"
    if all: "\<forall>i < ?n. has_posting ?acc t i"
  proof -
    from all 2 have z: "idf ?n (length cnt) = 0" by simp
    from all univ card sub have ids: "fst ` set cnt = {0..<?n}"
      using has_posting_ids [OF t] by auto
    have nonempty: "\<forall>(w, c) \<in> set ?acc. c \<noteq> []"
      using wf by (auto simp: well_formed_def)
    from n1 have "0 < ?n" by linarith
    then have "weighting_pass ?n ?acc = Inr (map (\<lambda>(w, c). (w, weigh ?n c)) ?acc)"
      using nonempty by (rule weighting_pass_ok)
    then have fin: "finished_index stem S methnames tokens apiseqs
        = Inr (sort_pass (map (\<lambda>(w, c). (w, weigh ?n c)) ?acc))"
      by (simp add: finished_index_def)
    have "map_of (sort_pass (map (\<lambda>(w, c). (w, weigh ?n c)) ?acc)) t
        = Some (sort_postings (weigh ?n cnt))"
      by (simp add: map_of_sort_pass t)
    also have "sort_postings (weigh ?n cnt) = map (\<lambda>i. (i, 0)) [0..<?n]"
      unfolding weigh_universal [OF z] using dist ids by (rule sort_zero_weights)
    finally show ?thesis using fin by blast
  qed
  have link: "\<forall>c :: postings. c \<noteq> [] \<longrightarrow>
             weight_term ?n c =
               Inr (map (\<lambda>(d, tf). (d, idf ?n (length c) * log 10 (1 + real tf))) c)"
  proof (intro allI impI)
    fix c :: postings assume "c \<noteq> []"
    moreover from n1 have "0 < ?n" by linarith
    ultimately have "weight_term ?n c = Inr (weigh ?n c)" by (intro weight_term_ok)
    then show "weight_term ?n c =
               Inr (map (\<lambda>(d, tf). (d, idf ?n (length c) * log 10 (1 + real tf))) c)"
      by (simp add: weigh_def)
  qed
  from link ne have own: "weight_term ?n cnt =
           Inr (map (\<lambda>(d, tf). (d, idf ?n (length cnt) * log 10 (1 + real tf))) cnt)"
    by blast
  have def: "idf ?n (length cnt) = log 10 (real ?n / real (length cnt))"
    by (simp add: idf_def)
  from own link def 1 2 3 4 show ?thesis by blast
qed

theorem idf_bounds_witness:
  "length ([] :: string list list) \<le> length [[''store''], [''store'', ''load'']]
   \<and> map_of (accumulate (\<lambda>w. w) {''the''} [[''store''], [''store'', ''load'']] [] []) ''store''
       = Some [(0, 1), (1, 1)]
   \<and> weight_term (length [[''store''], [''store'', ''load'']]) [(0, 1), (1, 1)]
       = Inr [(0, 0), (1, 0)]
   \<and> 0 \<le> idf (length [[''store''], [''store'', ''load'']]) (length [(0 :: nat, 1 :: nat), (1, 1)])
   \<and> (\<exists>index. finished_index (\<lambda>w. w) {''the''} [[''store''], [''store'', ''load'']] [] []
                   = Inr index
          \<and> map_of index ''store''
              = Some (map (\<lambda>i. (i, 0)) [0..<length [[''store''], [''store'', ''load'']]]))"
proof -
  have l: "length ([] :: string list list) \<le> length [[''store''], [''store'', ''load'']]"
    by simp
  have m: "map_of (accumulate (\<lambda>w. w) {''the''} [[''store''], [''store'', ''load'']] [] [])
             ''store'' = Some [(0, 1), (1, 1)]"
    by code_simp
  note th = idf_bounds [OF l l m]
  have z: "idf (length [[''store''], [''store'', ''load'']])
             (length [(0 :: nat, 1 :: nat), (1, 1)]) = 0"
    by (simp add: idf_def)
  from th have "weight_term (length [[''store''], [''store'', ''load'']]) [(0, 1), (1, 1)]
       = Inr (map (\<lambda>(d, tf). (d, idf (length [[''store''], [''store'', ''load'']])
                 (length [(0 :: nat, 1 :: nat), (1, 1)]) * log 10 (1 + real tf))) [(0, 1), (1, 1)])"
    by (elim conjE)
  then have w: "weight_term (length [[''store''], [''store'', ''load'']]) [(0, 1), (1, 1)]
       = Inr [(0, 0), (1, 0)]"
    unfolding z by simp
  from th have nn: "0 \<le> idf (length [[''store''], [''store'', ''load'']])
             (length [(0 :: nat, 1 :: nat), (1, 1)])"
    by (elim conjE)
  from th z have ex: "\<exists>index. finished_index (\<lambda>w. w) {''the''}
                   [[''store''], [''store'', ''load'']] [] [] = Inr index
          \<and> map_of index ''store''
              = Some (map (\<lambda>i. (i, 0)) [0..<length [[''store''], [''store'', ''load'']]])"
    by blast
  show ?thesis by (intro conjI l m w nn ex)
qed

section \<open>The \<open>word_indices\<close> variant (C8)\<close>

text \<open>
  For \<open>word_indices\<close> \<open>load_data\<close> returns two values and \<open>load_index\<close> unpacks
  three, so \<open>load_index\<close> never returns for this variant.
\<close>

lemma load_index_word_indices_fails:
  "index_type self = ''word_indices'' \<Longrightarrow> load_index self e \<noteq> Inr v"
  by (auto simp: load_index_def load_data_def unpack3_def Let_def split: sum.splits loaded.splits if_splits)

text \<open>
  C8: for the \<open>word_indices\<close> variant \<open>create_index\<close> accumulates nothing and
  \<open>save_index\<close> persists nothing, as the claim says; but \<open>load_index\<close> does not return
  the method-name and token sequences of the document loader. With all three files
  present \<open>load_data\<close> returns the pair of sequences, and unpacking it into three names
  raises \<open>ValueError\<close>.
\<close>

theorem word_indices_load_raises:
  "load_data
      \<lparr>dataset_path = ''data/'', index_type = ''word_indices'', use_methname = ''m.h5'',
       use_tokens = ''t.h5'', use_apiseq = ''a.h5'', methname_vocab = [(''get'', 1)],
       token_vocab = [(''name'', 1)], apiseq_vocab = [(''List'', 1)]\<rparr>
      \<lparr>path_exists = (\<lambda>p. True), load_hdf5 = (\<lambda>p. [[1]]), load_pickle = (\<lambda>p. [])\<rparr>
     = Inr (WordIndices [[1]] [[1]])
   \<and> load_index
      \<lparr>dataset_path = ''data/'', index_type = ''word_indices'', use_methname = ''m.h5'',
       use_tokens = ''t.h5'', use_apiseq = ''a.h5'', methname_vocab = [(''get'', 1)],
       token_vocab = [(''name'', 1)], apiseq_vocab = [(''List'', 1)]\<rparr>
      \<lparr>path_exists = (\<lambda>p. True), load_hdf5 = (\<lambda>p. [[1]]), load_pickle = (\<lambda>p. [])\<rparr>
     = Inl (ValueError ''not enough values to unpack (expected 3, got 2)'')
   \<and> create_index
      \<lparr>dataset_path = ''data/'', index_type = ''word_indices'', use_methname = ''m.h5'',
       use_tokens = ''t.h5'', use_apiseq = ''a.h5'', methname_vocab = [(''get'', 1)],
       token_vocab = [(''name'', 1)], apiseq_vocab = [(''List'', 1)]\<rparr>
      \<lparr>path_exists = (\<lambda>p. True), load_hdf5 = (\<lambda>p. [[1]]), load_pickle = (\<lambda>p. [])\<rparr>
      (\<lambda>w. w) {''the''}
     = Inr []
   \<and> save_index
      \<lparr>dataset_path = ''data/'', index_type = ''word_indices'', use_methname = ''m.h5'',
       use_tokens = ''t.h5'', use_apiseq = ''a.h5'', methname_vocab = [(''get'', 1)],
       token_vocab = [(''name'', 1)], apiseq_vocab = [(''List'', 1)]\<rparr>
      [(''get'', [(0, 0)])]
     = []"
  by (simp add: load_data_def load_index_def create_index_def save_index_def unpack3_def)

section \<open>Missing document files (C9)\<close>

text \<open>
  C9, as stated, fails: with the method-name file absent the inverted-index build stops
  with the fixed message \<open>Method names of real data not found.\<close>, in which the missing
  path \<open>data/m.h5\<close> does not occur; and for the \<open>word_indices\<close> variant the same
  absence is no failure at all, \<open>create_index\<close> returns at once.
\<close>

theorem missing_file_message_has_no_path:
  "create_index
      \<lparr>dataset_path = ''data/'', index_type = ''inverted_index'', use_methname = ''m.h5'',
       use_tokens = ''t.h5'', use_apiseq = ''a.h5'', methname_vocab = [(''get'', 1)],
       token_vocab = [(''name'', 1)], apiseq_vocab = [(''List'', 1)]\<rparr>
      \<lparr>path_exists = (\<lambda>p. p \<noteq> ''data/m.h5''), load_hdf5 = (\<lambda>p. [[1]]),
       load_pickle = (\<lambda>p. [])\<rparr>
      (\<lambda>w. w) {''the''}
     = Inl (AssertionError ''Method names of real data not found.'')
   \<and> \<not> sublist ''data/m.h5'' ''Method names of real data not found.''
   \<and> create_index
      \<lparr>dataset_path = ''data/'', index_type = ''word_indices'', use_methname = ''m.h5'',
       use_tokens = ''t.h5'', use_apiseq = ''a.h5'', methname_vocab = [(''get'', 1)],
       token_vocab = [(''name'', 1)], apiseq_vocab = [(''List'', 1)]\<rparr>
      \<lparr>path_exists = (\<lambda>p. p \<noteq> ''data/m.h5''), load_hdf5 = (\<lambda>p. [[1]]),
       load_pickle = (\<lambda>p. [])\<rparr>
      (\<lambda>w. w) {''the''}
     = Inr []"
proof (intro conjI)
  show "\<not> sublist ''data/m.h5'' ''Method names of real data not found.''"
    by code_simp
qed (simp_all add: create_index_def load_data_def)

text \<open>
  C9, amended: for every index variant other than \<open>word_indices\<close>, if any of the three
  document field files is absent, \<open>create_index\<close> fails with the \<open>AssertionError\<close>
  of \<open>load_data\<close>, raised before the index is created, so nothing is accumulated,
  weighted or saved; the message names the field of the first missing file (method
  names, tokens, API sequences, in this order), not its path.
\<close>

theorem missing_file_aborts_build:
  assumes "index_type self \<noteq> ''word_indices''"
      and "\<not> (path_exists e (dataset_path self @ use_methname self)
             \<and> path_exists e (dataset_path self @ use_tokens self)
             \<and> path_exists e (dataset_path self @ use_apiseq self))"
  shows "load_data self e = Inl (AssertionError
           (if \<not> path_exists e (dataset_path self @ use_methname self)
              then ''Method names of real data not found.''
            else if \<not> path_exists e (dataset_path self @ use_tokens self)
              then ''Tokens of real data not found.''
            else ''API sequences of real data not found.''))
       \<and> create_index self e stem S = Inl (AssertionError
           (if \<not> path_exists e (dataset_path self @ use_methname self)
              then ''Method names of real data not found.''
            else if \<not> path_exists e (dataset_path self @ use_tokens self)
              then ''Tokens of real data not found.''
            else ''API sequences of real data not found.''))"
  using assms by (auto simp: create_index_def load_data_def)

theorem missing_file_aborts_build_witness:
  "index_type \<lparr>dataset_path = ''data/'', index_type = ''inverted_index'', use_methname = ''m.h5'',
       use_tokens = ''t.h5'', use_apiseq = ''a.h5'', methname_vocab = [(''get'', 1)],
       token_vocab = [(''name'', 1)], apiseq_vocab = [(''List'', 1)]\<rparr> \<noteq> ''word_indices''
   \<and> create_index
      \<lparr>dataset_path = ''data/'', index_type = ''inverted_index'', use_methname = ''m.h5'',
       use_tokens = ''t.h5'', use_apiseq = ''a.h5'', methname_vocab = [(''get'', 1)],
       token_vocab = [(''name'', 1)], apiseq_vocab = [(''List'', 1)]\<rparr>
      \<lparr>path_exists = (\<lambda>p. p \<noteq> ''data/t.h5''), load_hdf5 = (\<lambda>p. [[1]]),
       load_pickle = (\<lambda>p. [])\<rparr>
      (\<lambda>w. w) {''the''}
     = Inl (AssertionError ''Tokens of real data not found.'')"
proof -
  let ?self = "\<lparr>dataset_path = ''data/'', index_type = ''inverted_index'', use_methname = ''m.h5'',
       use_tokens = ''t.h5'', use_apiseq = ''a.h5'', methname_vocab = [(''get'', 1)],
       token_vocab = [(''name'', 1)], apiseq_vocab = [(''List'', 1)]\<rparr>"
  let ?e = "\<lparr>path_exists = (\<lambda>p. p \<noteq> ''data/t.h5''), load_hdf5 = (\<lambda>p. [[1 :: int]]),
       load_pickle = (\<lambda>p. ([] :: windex))\<rparr>"
  have 1: "index_type ?self \<noteq> ''word_indices''" by simp
  have 2: "\<not> (path_exists ?e (dataset_path ?self @ use_methname ?self)
             \<and> path_exists ?e (dataset_path ?self @ use_tokens ?self)
             \<and> path_exists ?e (dataset_path ?self @ use_apiseq ?self))"
    by simp
  have m: "path_exists ?e (dataset_path ?self @ use_methname ?self)" by simp
  have t: "\<not> path_exists ?e (dataset_path ?self @ use_tokens ?self)" by simp
  from missing_file_aborts_build [OF 1 2, of "\<lambda>w. w" "{''the''}"]
  have "create_index ?self ?e (\<lambda>w. w) {''the''}
          = Inl (AssertionError ''Tokens of real data not found.'')"
    by (simp only: m t if_True if_False not_True_eq_False not_False_eq_True simp_thms)
  with 1 show ?thesis by (intro conjI)
qed

section \<open>Out-of-vocabulary ids (C10)\<close>

lemma invert_vocab_None: "invert_vocab vocab i = None \<longleftrightarrow> i \<notin> snd ` set vocab"
  by (force simp: invert_vocab_def map_of_eq_None_iff)

lemma invert_vocab_Some: "invert_vocab vocab i = Some w \<Longrightarrow> (w, i) \<in> set vocab"
  by (auto simp: invert_vocab_def dest!: map_of_SomeD)

lemma translate_nth:
  "d < length docs \<Longrightarrow> k < length (docs ! d) \<Longrightarrow>
     translate vocab docs ! d ! k =
       (case invert_vocab vocab (docs ! d ! k) of None \<Rightarrow> ''UNK'' | Some w \<Rightarrow> w)"
  by (simp add: translate_def)

text \<open>
  C10: with the three files present, \<open>load_data\<close> of the inverted-index variant always
  returns the three translated fields, whatever ids the documents hold. The translation
  keeps every document's length; an id that is the index of no word of the vocabulary
  becomes the token \<open>UNK\<close>, any other id becomes a word the vocabulary maps to it. The
  token \<open>UNK\<close> yields no term in a pass without stopwords, and in a pass with stopwords
  its only term is the rewritten stem of \<open>UNK\<close>, unless \<open>UNK\<close> is a stopword.
\<close>

theorem unknown_ids_become_UNK:
  assumes "index_type self = ''inverted_index''"
      and "path_exists e (dataset_path self @ use_methname self)"
      and "path_exists e (dataset_path self @ use_tokens self)"
      and "path_exists e (dataset_path self @ use_apiseq self)"
  shows "load_data self e = Inr (Terms
            (translate (methname_vocab self) (load_hdf5 e (dataset_path self @ use_methname self)))
            (translate (token_vocab self) (load_hdf5 e (dataset_path self @ use_tokens self)))
            (translate (apiseq_vocab self) (load_hdf5 e (dataset_path self @ use_apiseq self))))
       \<and> (\<forall>vocab docs. map length (translate vocab docs) = map length docs)
       \<and> (\<forall>vocab docs d k. d < length docs \<and> k < length (docs ! d)
             \<and> docs ! d ! k \<notin> snd ` set vocab
             \<longrightarrow> translate vocab docs ! d ! k = ''UNK'')
       \<and> (\<forall>vocab docs d k. d < length docs \<and> k < length (docs ! d)
             \<and> docs ! d ! k \<in> snd ` set vocab
             \<longrightarrow> (translate vocab docs ! d ! k, docs ! d ! k) \<in> set vocab)
       \<and> surviving_terms stem None [''UNK''] = []
       \<and> (\<forall>S. S \<noteq> {} \<longrightarrow> surviving_terms stem (Some S) [''UNK''] =
             (if ''UNK'' \<in> S then [] else [replace_synonyms (stem ''UNK'')]))"
proof (intro conjI allI impI)
  show "load_data self e = Inr (Terms
            (translate (methname_vocab self) (load_hdf5 e (dataset_path self @ use_methname self)))
            (translate (token_vocab self) (load_hdf5 e (dataset_path self @ use_tokens self)))
            (translate (apiseq_vocab self) (load_hdf5 e (dataset_path self @ use_apiseq self))))"
    using assms by (simp add: load_data_def)
next
  fix vocab :: "(string \<times> int) list" and docs :: "int list list"
  show "map length (translate vocab docs) = map length docs"
    by (simp add: translate_def)
next
  fix vocab :: "(string \<times> int) list" and docs :: "int list list" and d k :: nat
  assume "d < length docs \<and> k < length (docs ! d) \<and> docs ! d ! k \<notin> snd ` set vocab"
  then show "translate vocab docs ! d ! k = ''UNK''"
    by (simp add: translate_nth invert_vocab_None [THEN iffD2])
next
  fix vocab :: "(string \<times> int) list" and docs :: "int list list" and d k :: nat
  assume a: "d < length docs \<and> k < length (docs ! d) \<and> docs ! d ! k \<in> snd ` set vocab"
  then obtain w where w: "invert_vocab vocab (docs ! d ! k) = Some w"
    using invert_vocab_None [of vocab "docs ! d ! k"] by (cases "invert_vocab vocab (docs ! d ! k)") auto
  with a have "translate vocab docs ! d ! k = w" by (simp add: translate_nth)
  with w show "(translate vocab docs ! d ! k, docs ! d ! k) \<in> set vocab"
    by (simp add: invert_vocab_Some)
next
  show "surviving_terms stem None [''UNK''] = []"
    by (simp add: surviving_terms_def)
next
  fix S :: "string set"
  assume "S \<noteq> {}"
  then show "surviving_terms stem (Some S) [''UNK''] =
             (if ''UNK'' \<in> S then [] else [replace_synonyms (stem ''UNK'')])"
    by (simp add: surviving_terms_def)
qed

theorem unknown_ids_become_UNK_witness:
  "load_data
      \<lparr>dataset_path = ''data/'', index_type = ''inverted_index'', use_methname = ''m.h5'',
       use_tokens = ''t.h5'', use_apiseq = ''a.h5'', methname_vocab = [(''get'', 1)],
       token_vocab = [(''name'', 1)], apiseq_vocab = [(''List'', 1)]\<rparr>
      \<lparr>path_exists = (\<lambda>p. True), load_hdf5 = (\<lambda>p. [[1, 7]]), load_pickle = (\<lambda>p. [])\<rparr>
     = Inr (Terms [[''get'', ''UNK'']] [[''name'', ''UNK'']] [[''List'', ''UNK'']])
   \<and> translate [(''get'', 1)] [[1, 7]] ! 0 ! 1 = ''UNK''"
proof -
  let ?self = "\<lparr>dataset_path = ''data/'', index_type = ''inverted_index'', use_methname = ''m.h5'',
       use_tokens = ''t.h5'', use_apiseq = ''a.h5'', methname_vocab = [(''get'', 1)],
       token_vocab = [(''name'', 1)], apiseq_vocab = [(''List'', 1)]\<rparr>"
  let ?e = "\<lparr>path_exists = (\<lambda>p. True), load_hdf5 = (\<lambda>p. [[1 :: int, 7]]),
       load_pickle = (\<lambda>p. ([] :: windex))\<rparr>"
  have 1: "index_type ?self = ''inverted_index''" by simp
  have 2: "path_exists ?e (dataset_path ?self @ use_methname ?self)" by simp
  have 3: "path_exists ?e (dataset_path ?self @ use_tokens ?self)" by simp
  have 4: "path_exists ?e (dataset_path ?self @ use_apiseq ?self)" by simp
  note th = unknown_ids_become_UNK [OF 1 2 3 4, of "\<lambda>w. w"]
  have m: "translate (methname_vocab ?self) (load_hdf5 ?e (dataset_path ?self @ use_methname ?self))
             = [[''get'', ''UNK'']]"
    by (simp add: translate_def invert_vocab_def)
  have t: "translate (token_vocab ?self) (load_hdf5 ?e (dataset_path ?self @ use_tokens ?self))
             = [[''name'', ''UNK'']]"
    by (simp add: translate_def invert_vocab_def)
  have a: "translate (apiseq_vocab ?self) (load_hdf5 ?e (dataset_path ?self @ use_apiseq ?self))
             = [[''List'', ''UNK'']]"
    by (simp add: translate_def invert_vocab_def)
  from th have "load_data ?self ?e = Inr (Terms
            (translate (methname_vocab ?self) (load_hdf5 ?e (dataset_path ?self @ use_methname ?self)))
            (translate (token_vocab ?self) (load_hdf5 ?e (dataset_path ?self @ use_tokens ?self)))
            (translate (apiseq_vocab ?self) (load_hdf5 ?e (dataset_path ?self @ use_apiseq ?self))))"
    by (rule conjunct1)
  then have l: "load_data ?self ?e
      = Inr (Terms [[''get'', ''UNK'']] [[''name'', ''UNK'']] [[''List'', ''UNK'']])"
    by (simp only: m t a)
  have h: "0 < length [[1 :: int, 7]] \<and> 1 < length ([[1 :: int, 7]] ! 0)
             \<and> [[1 :: int, 7]] ! 0 ! 1 \<notin> snd ` set [(''get'', 1)]"
    by simp
  have u: "translate [(''get'', 1)] [[1, 7]] ! 0 ! 1 = ''UNK''"
    by (rule th [THEN conjunct2, THEN conjunct2, THEN conjunct1, rule_format, OF h])
  show ?thesis by (intro conjI l u)
qed

end
